theory Spec2Isabelle
  imports Complex_Main "HOL-Library.Sublist" "HOL-Library.Log_Nat"
begin

section \<open>JavaScript values used by the scripts\<close>

text \<open>
  A \<^verbatim>\<open>Date\<close> is modelled by its time value, the integer number of milliseconds since
  the epoch that \<^verbatim>\<open>valueOf()\<close> returns; an Invalid Date (time value NaN) is \<open>None\<close>.
  \<^verbatim>\<open>new Date(v)\<close> clips: a time value outside \<open>\<plusminus>8.64e15\<close> gives an Invalid Date.
  Every comparison with an Invalid Date is false, as every comparison with NaN is.
\<close>

type_synonym date = "int option"

definition new_Date :: "int \<Rightarrow> date" where
  "new_Date v = (if \<bar>v\<bar> \<le> 8640000000000000 then Some v else None)"

definition date_ge :: "int \<Rightarrow> date \<Rightarrow> bool" where
  "date_ge t d = (case d of None \<Rightarrow> False | Some v \<Rightarrow> v \<le> t)"

definition date_lt :: "int \<Rightarrow> date \<Rightarrow> bool" where
  "date_lt t d = (case d of None \<Rightarrow> False | Some v \<Rightarrow> t < v)"

text \<open>
  A JavaScript number that results from a division: a finite value, an infinity or NaN.
  A finite double is the real number it stands for. The minutes of the window and the
  availability are computed exactly; this agrees with the doubles of the script wherever
  the theorems below state their value, on integers of a magnitude below \<open>2^53\<close>. The sum
  and the mean of \<open>getMTTR\<close> are rounded as doubles are, with \<open>fl\<close> below.
\<close>

datatype jsnum = Num real | PosInf | NegInf | NaN

definition js_div :: "real \<Rightarrow> real \<Rightarrow> jsnum" where
  "js_div a b =
     (if b \<noteq> 0 then Num (a / b)
      else if a = 0 then NaN
      else if 0 < a then PosInf
      else NegInf)"

text \<open>\<^verbatim>\<open>Math.round\<close>: the nearest integer, a tie going up.\<close>

definition Math_round :: "real \<Rightarrow> int" where
  "Math_round x = \<lfloor>x + 1 / 2\<rfloor>"

text \<open>
  \<^verbatim>\<open>Number(x.toFixed(0))\<close>: \<^verbatim>\<open>toFixed\<close> sets the sign aside and rounds the magnitude to the
  nearest integer, a tie going to the larger one.
\<close>

definition toFixed0 :: "real \<Rightarrow> int" where
  "toFixed0 x = (if x < 0 then - \<lfloor>- x + 1 / 2\<rfloor> else \<lfloor>x + 1 / 2\<rfloor>)"

text \<open>
  The arithmetic of doubles: \<open>fl x\<close> is the double nearest to \<open>x\<close>, a tie going to the even
  significand. \<open>binade x\<close> is the exponent of \<open>x\<close>, the integer \<open>e\<close> with
  \<open>2^e \<le> |x| < 2^(e+1)\<close>, and a double has 53 significant bits, so the doubles of that
  binade are the multiples of \<open>2^(e-52)\<close>. An operation on doubles is the exact operation
  followed by \<open>fl\<close>. The range of the exponent is not modelled: with dates within
  \<open>\<plusminus>8.64e15\<close> ms and arrays of fewer than \<open>2^32\<close> elements, the values that \<open>getMTTR\<close>
  rounds are zero or of a magnitude between \<open>2^-100\<close> and \<open>2^90\<close>.
\<close>

definition round_half_even :: "real \<Rightarrow> int" where
  "round_half_even x =
     (let f = \<lfloor>x\<rfloor>; d = x - of_int f
      in if d < 1 / 2 then f
         else if 1 / 2 < d then f + 1
         else if even f then f else f + 1)"

definition binade :: "real \<Rightarrow> int" where
  "binade x =
     (if 1 \<le> \<bar>x\<bar> then bitlen \<lfloor>\<bar>x\<bar>\<rfloor> - 1
      else (let k = bitlen \<lfloor>1 / \<bar>x\<bar>\<rfloor> - 1
            in if \<bar>x\<bar> * 2 ^ nat k = 1 then - k else - k - 1))"

definition fl :: "real \<Rightarrow> real" where
  "fl x =
     (if x = 0 then 0
      else of_int (round_half_even (x / 2 powi (binade x - 52))) * 2 powi (binade x - 52))"

section \<open>mackerel-alert-stats.ts\<close>

subsection \<open>Alerts and their statistics\<close>

text \<open>
  The fields of the client library's \<^verbatim>\<open>Alert\<close> that the script reads. \<open>monitorId\<close> is
  \<open>None\<close> for \<^verbatim>\<open>null\<close> (the monitor was deleted); \<open>closedAt\<close> is \<open>None\<close> while the alert is
  open. The dates of an alert come from the API and are valid.
\<close>

record alert =
  monitorId :: "string option"
  alert_type :: string
  openedAt :: int
  closedAt :: "int option"

record AlertStats =
  count :: nat
  mttr :: int
  downTime :: int

text \<open>
  \<open>getMTTR\<close>, lines 65-70. \<open>now\<close> is the reading of the clock that \<^verbatim>\<open>new Date()\<close>
  returns for an alert that is still open; all the readings of one run are taken to be
  the same. Every operation of lines 67-69 is an operation on doubles: the difference of
  the two time values, its division by 60000, each addition of \<^verbatim>\<open>reduce\<close>, and the division
  by the length.
\<close>

definition getMTTR :: "int \<Rightarrow> alert list \<Rightarrow> int" where
  "getMTTR now alerts =
     (if length alerts = 0 then 0
      else toFixed0
        (fl (foldl (\<lambda>acc cur. fl (acc + cur)) 0
               (map (\<lambda>a. fl (fl (of_int ((case closedAt a of Some c \<Rightarrow> c | None \<Rightarrow> now)
                                          - openedAt a))
                              / 60000))
                  alerts)
             / fl (of_nat (length alerts)))))"

text \<open>\<open>getAlertStats\<close>, lines 102-109.\<close>

definition getAlertStats :: "int \<Rightarrow> alert list \<Rightarrow> AlertStats" where
  "getAlertStats now alerts =
     (let count = length alerts; mttr = getMTTR now alerts
      in \<lparr>count = count, mttr = mttr, downTime = int count * mttr\<rparr>)"

text \<open>Line 42: the start of the previous window.\<close>

definition prev :: "int \<Rightarrow> int \<Rightarrow> date" where
  "prev from to = new_Date (2 * from - to)"

text \<open>Line 44: the length of the window in minutes.\<close>

definition windowMin :: "int \<Rightarrow> int \<Rightarrow> int" where
  "windowMin from to = Math_round (of_int (to - from) / 60000)"

text \<open>Line 60: the availability of a monitor over a window of \<open>wm\<close> minutes.\<close>

definition availability :: "int \<Rightarrow> AlertStats \<Rightarrow> jsnum" where
  "availability wm stats = js_div (100 * (of_int wm - of_int (downTime stats))) (of_int wm)"

subsection \<open>The paginated fetch\<close>

datatype error = ApiKeyNotSet | InvalidFrom | InvalidTo | InvalidRange | RequestRejected | TypeError

text \<open>
  \<^verbatim>\<open>cli.alerts.list\<close> is the outside world: the promise rejects, or resolves to a page of
  alerts and the cursor of the next page. The answer may depend on the number of requests
  made before and on the cursor sent.
\<close>

datatype alerts_response =
  ListRejected
  | ListResolved "alert list" "string option"

type_synonym alerts_api = "nat \<Rightarrow> string option \<Rightarrow> alerts_response"

text \<open>
  \<open>getAlerts\<close>, lines 72-87. The loop has no bound, so the model is a partial function:
  \<open>None\<close> is a run that never returns. A result carries, besides the alerts, the cursors of
  the requests made, in order. Reading \<^verbatim>\<open>openedAt\<close> of the last alert of an empty page is a
  \<^verbatim>\<open>TypeError\<close>. The one-second delay between requests has no effect on the values.
\<close>

partial_function (option) getAlerts_loop ::
  "alerts_api \<Rightarrow> date \<Rightarrow> alert list \<Rightarrow> string option \<Rightarrow> int \<Rightarrow> string option list
     \<Rightarrow> (error + alert list \<times> string option list) option" where
  "getAlerts_loop api from alerts cursor currentOpenedAt requests =
     (case api (length requests) cursor of
        ListRejected \<Rightarrow> Some (Inl RequestRejected)
      | ListResolved res_alerts res_cursor \<Rightarrow>
          (if date_ge currentOpenedAt from
           then Some (Inr (alerts @ res_alerts, requests @ [cursor]))
           else if res_alerts = [] then Some (Inl TypeError)
           else getAlerts_loop api from (alerts @ res_alerts) res_cursor
                  (openedAt (last res_alerts)) (requests @ [cursor])))"

declare getAlerts_loop.simps [code]

definition getAlerts ::
  "alerts_api \<Rightarrow> int \<Rightarrow> date \<Rightarrow> (error + alert list \<times> string option list) option" where
  "getAlerts api now from = getAlerts_loop api from [] None now []"

subsection \<open>Grouping by monitor\<close>

text \<open>
  An object with string keys is an association list in the order the keys were created.
  \<^verbatim>\<open>Object.groupBy\<close> appends an item to the group of its key, or creates the group.
  A \<^verbatim>\<open>null\<close> key is coerced to the property key \<^verbatim>\<open>"null"\<close>.
\<close>

type_synonym 'a groups = "(string \<times> 'a list) list"

fun groupBy_add :: "string \<Rightarrow> 'a \<Rightarrow> 'a groups \<Rightarrow> 'a groups" where
  "groupBy_add k x [] = [(k, [x])]"
| "groupBy_add k x ((k', xs) # g) =
     (if k = k' then (k', xs @ [x]) # g else (k', xs) # groupBy_add k x g)"

definition Object_groupBy :: "'a list \<Rightarrow> ('a \<Rightarrow> string) \<Rightarrow> 'a groups" where
  "Object_groupBy items keyOf = foldl (\<lambda>g x. groupBy_add (keyOf x) x g) [] items"

definition propertyKey :: "string option \<Rightarrow> string" where
  "propertyKey v = (case v of None \<Rightarrow> ''null'' | Some s \<Rightarrow> s)"

text \<open>
  \<^verbatim>\<open>Object.entries\<close> lists the keys that are array indices (canonical decimal numerals
  below \<open>2^32 - 1\<close>) first, in ascending numeric order, then the other keys in the order
  of their creation.
\<close>

definition digits_value :: "string \<Rightarrow> int" where
  "digits_value k = foldl (\<lambda>n c. 10 * n + (of_char c - 48)) 0 k"

definition is_digit :: "char \<Rightarrow> bool" where
  "is_digit c = (48 \<le> (of_char c :: int) \<and> (of_char c :: int) \<le> 57)"

definition is_array_index :: "string \<Rightarrow> bool" where
  "is_array_index k =
     (k \<noteq> [] \<and> list_all is_digit k \<and> (if length k = 1 then True else hd k \<noteq> CHR ''0'')
      \<and> digits_value k < 4294967295)"

definition Object_entries :: "'a groups \<Rightarrow> 'a groups" where
  "Object_entries g =
     sort_key (\<lambda>e. digits_value (fst e)) (filter (\<lambda>e. is_array_index (fst e)) g)
     @ filter (\<lambda>e. \<not> is_array_index (fst e)) g"

text \<open>\<^verbatim>\<open>obj[key] ?? []\<close>.\<close>

definition group_or_empty :: "'a groups \<Rightarrow> string \<Rightarrow> 'a list" where
  "group_or_empty g k = (case map_of g k of None \<Rightarrow> [] | Some xs \<Rightarrow> xs)"

text \<open>The alerts an object of groups holds.\<close>

definition group_members :: "'a groups \<Rightarrow> 'a list" where
  "group_members g = concat (map snd g)"

text \<open>
  \<open>getAlertsByMonitor\<close>, lines 89-96: \<open>windowGroups\<close> is the pair it returns, computed from
  the alerts that \<open>getAlerts\<close> fetched; \<open>prev'\<close> is its parameter \<^verbatim>\<open>prev\<close>.
\<close>

definition windowGroups :: "date \<Rightarrow> date \<Rightarrow> date \<Rightarrow> alert list \<Rightarrow> alert groups \<times> alert groups" where
  "windowGroups prev' from to alerts =
     (Object_groupBy
        (filter (\<lambda>a. date_ge (openedAt a) from \<and> date_lt (openedAt a) to) alerts)
        (\<lambda>a. propertyKey (monitorId a)),
      Object_groupBy
        (filter (\<lambda>a. date_ge (openedAt a) prev' \<and> date_lt (openedAt a) from) alerts)
        (\<lambda>a. propertyKey (monitorId a)))"

definition getAlertsByMonitor ::
  "alerts_api \<Rightarrow> int \<Rightarrow> date \<Rightarrow> date \<Rightarrow> date
     \<Rightarrow> (error + alert groups \<times> alert groups) option" where
  "getAlertsByMonitor api now prev' from to =
     (case getAlerts api now prev' of
        None \<Rightarrow> None
      | Some (Inl e) \<Rightarrow> Some (Inl e)
      | Some (Inr (alerts, requests)) \<Rightarrow> Some (Inr (windowGroups prev' from to alerts)))"

subsection \<open>The report\<close>

text \<open>
  What the script does to the outside world, in order: a request for a monitor's name,
  and a printed line. A report line is kept as the numbers it is formatted from, and
  carries the key of its group; the formatting of the numbers is not modelled.
\<close>

datatype report_event =
  PrintTitle date date date
  | PrintColumns
  | MonitorGet string
  | PrintLine string string AlertStats AlertStats jsnum jsnum

text \<open>The group an event belongs to.\<close>

fun event_key :: "report_event \<Rightarrow> string option" where
  "event_key (MonitorGet k) = Some k"
| "event_key (PrintLine k name cs ps av pav) = Some k"
| "event_key _ = None"

text \<open>
  The loop of lines 51-63 over the entries of the current window. \<open>monitors_get\<close> is
  \<^verbatim>\<open>cli.monitors.get\<close>: the name of the monitor, or \<open>None\<close> when the promise rejects, which
  ends the script.
\<close>

fun report_loop ::
  "(string \<Rightarrow> string option) \<Rightarrow> int \<Rightarrow> int \<Rightarrow> alert groups \<Rightarrow> alert groups
     \<Rightarrow> report_event list \<times> error option" where
  "report_loop monitors_get now wm prevAlertsByMonitor [] = ([], None)"
| "report_loop monitors_get now wm prevAlertsByMonitor ((k, alerts) # rest) =
     (case alerts of
        [] \<Rightarrow> ([], Some TypeError)
      | a0 # _ \<Rightarrow>
          if alert_type a0 = ''check'' then report_loop monitors_get now wm prevAlertsByMonitor rest
          else if monitorId a0 = None then report_loop monitors_get now wm prevAlertsByMonitor rest
          else
            (case monitors_get k of
               None \<Rightarrow> ([MonitorGet k], Some RequestRejected)
             | Some monitorName \<Rightarrow>
                 (let currentStats = getAlertStats now alerts;
                      prevStats = getAlertStats now (group_or_empty prevAlertsByMonitor k);
                      (evs, r) = report_loop monitors_get now wm prevAlertsByMonitor rest
                  in (MonitorGet k
                      # PrintLine k monitorName currentStats prevStats
                          (availability wm currentStats) (availability wm prevStats)
                      # evs, r))))"

text \<open>
  The script from its first line: the API key and the two dates as parsed from the flags,
  the checks of lines 15-34, then the fetch and the report.
\<close>

definition alert_stats_script ::
  "string option \<Rightarrow> date \<Rightarrow> date \<Rightarrow> alerts_api \<Rightarrow> (string \<Rightarrow> string option) \<Rightarrow> int
     \<Rightarrow> (report_event list \<times> error option) option" where
  "alert_stats_script apiKey from to api monitors_get now =
     (case apiKey of
        None \<Rightarrow> Some ([], Some ApiKeyNotSet)
      | Some _ \<Rightarrow>
     (case from of
        None \<Rightarrow> Some ([], Some InvalidFrom)
      | Some f \<Rightarrow>
     (case to of
        None \<Rightarrow> Some ([], Some InvalidTo)
      | Some t \<Rightarrow>
          if \<not> f < t then Some ([], Some InvalidRange)
          else
            (case getAlertsByMonitor api now (prev f t) from to of
               None \<Rightarrow> None
             | Some (Inl e) \<Rightarrow> Some ([], Some e)
             | Some (Inr (alertsByMonitor, prevAlertsByMonitor)) \<Rightarrow>
                 (let (evs, r) = report_loop monitors_get now (windowMin f t)
                                   prevAlertsByMonitor (Object_entries alertsByMonitor)
                  in Some (PrintTitle from to (prev f t) # PrintColumns # evs, r))))))"

section \<open>list_monitors.ts\<close>

subsection \<open>Strings\<close>

text \<open>
  A JavaScript string is a \<open>string\<close>, one \<open>char\<close> for each code unit; the model covers the
  strings of code units below 256. \<^verbatim>\<open>s.split(sep)\<close> with a separator of one character cuts
  at every occurrence and always returns at least one piece.
\<close>

fun split_chr :: "char \<Rightarrow> string \<Rightarrow> string list" where
  "split_chr sep [] = [[]]"
| "split_chr sep (c # cs) =
     (if c = sep then [] # split_chr sep cs
      else (case split_chr sep cs of
              [] \<Rightarrow> [[c]]
            | piece # pieces \<Rightarrow> (c # piece) # pieces))"

text \<open>
  \<^verbatim>\<open>s.trim()\<close> removes white space and line terminators from both ends: tab, line feed,
  vertical tab, form feed, carriage return, space and no-break space.
\<close>

definition is_space :: "char \<Rightarrow> bool" where
  "is_space c = (of_char c \<in> {9, 10, 11, 12, 13, 32, 160 :: nat})"

definition trim :: "string \<Rightarrow> string" where
  "trim s = rev (dropWhile is_space (rev (dropWhile is_space s)))"

text \<open>\<^verbatim>\<open>s.includes(sub)\<close>: \<open>sub\<close> occurs in \<open>s\<close> as a contiguous substring.\<close>

definition str_includes :: "string \<Rightarrow> string \<Rightarrow> bool" where
  "str_includes s sub = sublist sub s"

subsection \<open>Monitors\<close>

text \<open>
  The property \<^verbatim>\<open>scopes\<close> of a monitor: the key may be absent (\<^verbatim>\<open>'scopes' in monitor\<close> is
  false), present with the value \<^verbatim>\<open>undefined\<close>, an array of scopes, or an object with
  \<^verbatim>\<open>include\<close> and an optional \<^verbatim>\<open>exclude\<close>.
\<close>

datatype scopes_prop =
  ScopesAbsent
  | ScopesUndefined
  | ScopesArray "string list"
  | ScopesObject "string list" "string list option"

text \<open>
  The fields of the client library's \<^verbatim>\<open>Monitor\<close> that the filter reads; the record is
  extensible, for the fields it does not read.
\<close>

record monitor =
  monitor_id :: string
  monitor_type :: string
  monitor_name :: string
  scopes :: scopes_prop

text \<open>\<open>scopesToIncludeArray\<close>, lines 25-36, applied to \<^verbatim>\<open>monitor.scopes\<close>.\<close>

fun scopesToIncludeArray :: "scopes_prop \<Rightarrow> string list" where
  "scopesToIncludeArray ScopesAbsent = []"
| "scopesToIncludeArray ScopesUndefined = []"
| "scopesToIncludeArray (ScopesArray xs) = xs"
| "scopesToIncludeArray (ScopesObject inc exc) = inc"

text \<open>The types whose monitors are matched by name (lines 60-65 of both files).\<close>

definition name_matched :: "string \<Rightarrow> bool" where
  "name_matched ty =
     (ty = ''external'' \<or> ty = ''expression'' \<or> ty = ''anomalyDetection'' \<or> ty = ''service'')"

text \<open>
  \<^verbatim>\<open>scope.split(":")[0]\<close> compared by \<open>test\<close>; an empty array has no element 0, and
  \<^verbatim>\<open>undefined\<close> is no service.
\<close>

definition servicePart_satisfies :: "(string \<Rightarrow> bool) \<Rightarrow> string \<Rightarrow> bool" where
  "servicePart_satisfies test scope =
     (case split_chr CHR '':'' scope of [] \<Rightarrow> False | servicePart # _ \<Rightarrow> test servicePart)"

text \<open>\<open>filterByService\<close> of src/mackerel/list_monitors.ts, lines 54-93.\<close>

definition filterByService ::
  "'a monitor_scheme list \<Rightarrow> string \<Rightarrow> bool \<Rightarrow> 'a monitor_scheme list" where
  "filterByService monitors service excludeAllServices =
     (let services = map trim (split_chr CHR '','' service)
      in filter
           (\<lambda>monitor.
              if name_matched (monitor_type monitor)
              then list_ex (\<lambda>svc. str_includes (monitor_name monitor) svc) services
              else if scopes monitor = ScopesAbsent then \<not> excludeAllServices
              else
                (let scopesList = scopesToIncludeArray (scopes monitor)
                 in if excludeAllServices \<and> length scopesList = 0 then False
                    else if length scopesList = 0 then True
                    else list_ex (servicePart_satisfies (\<lambda>servicePart. servicePart \<in> set services))
                           scopesList))
           monitors)"

subsection \<open>The earlier variant of the script (src/unnamed/part_000)\<close>

text \<open>
  Its own interface \<^verbatim>\<open>Monitor\<close>, lines 10-18: \<^verbatim>\<open>scopes\<close> and \<^verbatim>\<open>excludeScopes\<close> are optional
  arrays, \<open>None\<close> when missing.
\<close>

record Monitor =
  id0 :: string
  type0 :: string
  name0 :: string
  scopes0 :: "string list option"
  excludeScopes0 :: "string list option"

text \<open>\<open>filterByService\<close> of src/unnamed/part_000, lines 43-82.\<close>

definition filterByService0 ::
  "'a Monitor_scheme list \<Rightarrow> string \<Rightarrow> bool \<Rightarrow> 'a Monitor_scheme list" where
  "filterByService0 monitors service excludeAllServices =
     filter
       (\<lambda>monitor.
          if name_matched (type0 monitor) then str_includes (name0 monitor) service
          else if (case excludeScopes0 monitor of
                     None \<Rightarrow> False
                   | Some exc \<Rightarrow>
                       0 < length exc
                       \<and> list_ex (servicePart_satisfies (\<lambda>servicePart. servicePart = service)) exc)
          then False
          else
            (case scopes0 monitor of
               None \<Rightarrow> if excludeAllServices then False else True
             | Some scs \<Rightarrow>
                 if excludeAllServices \<and> length scs = 0 then False
                 else if length scs = 0 then True
                 else list_ex (servicePart_satisfies (\<lambda>servicePart. servicePart = service)) scs))
       monitors"

text \<open>
  The guard of lines 56-64 of src/unnamed/part_000: a scope of \<^verbatim>\<open>excludeScopes\<close> names the
  service.
\<close>

definition excludes_service :: "'a Monitor_scheme \<Rightarrow> string \<Rightarrow> bool" where
  "excludes_service monitor service =
     (case excludeScopes0 monitor of
        None \<Rightarrow> False
      | Some exc \<Rightarrow> list_ex (servicePart_satisfies (\<lambda>servicePart. servicePart = service)) exc)"

section \<open>make_team_maintainer.ts\<close>

subsection \<open>Requests, responses and the trace of a run\<close>

text \<open>
  The requests the two scripts send: the REST list of teams (\<^verbatim>\<open>GET\<close>, with the
  organisation and the user of the query), the membership update (\<^verbatim>\<open>PUT\<close>, with the
  organisation, the team of the URL and the user; its body is the role maintainer), and the
  two GraphQL queries (\<^verbatim>\<open>POST\<close>), with their variables.
\<close>

datatype request =
  GetTeams string string
  | PutMembership string string string
  | PostTeamsQuery string "string option"
  | PostMembersQuery string string "string option"

datatype http_method = GET | PUT | POST

fun http_method_of :: "request \<Rightarrow> http_method" where
  "http_method_of (GetTeams org user) = GET"
| "http_method_of (PutMembership org teamSlug username) = PUT"
| "http_method_of (PostTeamsQuery org cursor) = POST"
| "http_method_of (PostMembersQuery org teamSlug cursor) = POST"

text \<open>
  What \<^verbatim>\<open>fetch\<close> gives back: the promise rejects, or resolves to a response with a status,
  a body to read as text and a body to parse as JSON; each reading is \<open>None\<close> when it
  rejects. \<^verbatim>\<open>response.ok\<close> holds for the statuses 200 to 299.
\<close>

datatype 'j response =
  Rejected
  | Response nat "string option" "'j option"

definition ok :: "nat \<Rightarrow> bool" where
  "ok status = (200 \<le> status \<and> status \<le> 299)"

text \<open>The lines the scripts print, each with the values it interpolates.\<close>

record team =
  team_name :: string
  team_slug :: string

datatype message =
  SettingMaintainer string nat string
  | ProcessingTeam string
  | TeamApiReturned nat
  | ErrorBody string
  | Success string string string
  | ErrorProcessingTeam string
  | Done
  | ParametersRequired
  | Usage
  | TokenNotSet
  | FetchingTeams string string
  | FoundTeams nat
  | ApiReturned nat
  | DryRunNamesHeader
  | DryRunSlugsHeader
  | TeamLine string
  | TeamsJson "team list"
  | Caught
  | GraphQLApiReturned nat
  | GraphQLErrorsFound
  | MoreThan100Members string
  | FetchedSoFar nat
  | FilteringTeams string
  | FoundIn string string
  | FetchingAllTeams string
  | FoundTeamsInTotal nat
  | ResultsHeader
  | MemberOfTeams string nat

text \<open>
  The trace of a run: the requests sent, the lines written with \<^verbatim>\<open>console.log\<close> and
  \<^verbatim>\<open>console.error\<close>, and \<^verbatim>\<open>Deno.exit\<close>, which ends the process.
\<close>

datatype event =
  Fetch request
  | Log message
  | LogError message
  | Exit nat

text \<open>
  How a call ends: it returns a value, throws, ends the process, or, for a loop that the
  server can keep running forever, is cut off when its fuel is used up.
\<close>

datatype 'a outcome = Returned 'a | Threw | ProcessExit | OutOfFuel

text \<open>\<^verbatim>\<open>!v\<close> for a string that may be \<^verbatim>\<open>undefined\<close>.\<close>

definition falsy :: "string option \<Rightarrow> bool" where
  "falsy v = (case v of None \<Rightarrow> True | Some s \<Rightarrow> s = [])"

text \<open>\<^verbatim>\<open>args[i]\<close>, \<^verbatim>\<open>undefined\<close> past the end.\<close>

definition arg :: "string list \<Rightarrow> nat \<Rightarrow> string option" where
  "arg args i = (if i < length args then Some (args ! i) else None)"

subsection \<open>setMaintainer\<close>

text \<open>
  The loop of \<open>setMaintainer\<close> (lines 51-81 of src/github/make_team_maintainer.ts, lines
  272-302 of src/unnamed/part_001). The two files differ in one place: the first takes
  \<^verbatim>\<open>team.name\<close> as \<^verbatim>\<open>teamSlug\<close>, the second \<^verbatim>\<open>team.slug\<close>; \<open>slugOf\<close> is that field.
  \<open>put i\<close> is the answer to the \<open>i\<close>-th \<^verbatim>\<open>PUT\<close>; its JSON reading is the role of the parsed
  body, \<open>None\<close> when parsing rejects or the role cannot be read. Whatever is thrown inside
  the \<^verbatim>\<open>try\<close> is caught, logged, and the loop goes on.
\<close>

fun setMaintainer_loop ::
  "('t \<Rightarrow> string) \<Rightarrow> (nat \<Rightarrow> string response) \<Rightarrow> string \<Rightarrow> string \<Rightarrow> nat \<Rightarrow> 't list
     \<Rightarrow> event list" where
  "setMaintainer_loop slugOf put org username i [] = []"
| "setMaintainer_loop slugOf put org username i (team # teams) =
     (let teamSlug = slugOf team
      in [Log (ProcessingTeam teamSlug), Fetch (PutMembership org teamSlug username)]
         @ (case put i of
              Rejected \<Rightarrow> [LogError (ErrorProcessingTeam teamSlug)]
            | Response status text json \<Rightarrow>
                if \<not> ok status
                then (case text of
                        None \<Rightarrow> [LogError (ErrorProcessingTeam teamSlug)]
                      | Some errorText \<Rightarrow>
                          [LogError (TeamApiReturned status), LogError (ErrorBody errorText)])
                else (case json of
                        None \<Rightarrow> [LogError (ErrorProcessingTeam teamSlug)]
                      | Some role \<Rightarrow> [Log (Success username role teamSlug)]))
         @ setMaintainer_loop slugOf put org username (Suc i) teams)"

definition setMaintainer_by ::
  "('t \<Rightarrow> string) \<Rightarrow> (nat \<Rightarrow> string response) \<Rightarrow> string \<Rightarrow> string \<Rightarrow> 't list \<Rightarrow> event list" where
  "setMaintainer_by slugOf put org username teams =
     Log (SettingMaintainer username (length teams) org)
     # setMaintainer_loop slugOf put org username 0 teams
     @ [Log Done]"

text \<open>\<open>setMaintainer\<close> of src/github/make_team_maintainer.ts, lines 43-84.\<close>

definition setMaintainer ::
  "(nat \<Rightarrow> string response) \<Rightarrow> string \<Rightarrow> string \<Rightarrow> 'a team_scheme list \<Rightarrow> event list" where
  "setMaintainer put org username teams = setMaintainer_by team_name put org username teams"

subsection \<open>The REST script (src/github/make_team_maintainer.ts)\<close>

text \<open>\<open>getTeams\<close>, lines 19-41.\<close>

definition getTeams ::
  "team list response \<Rightarrow> string \<Rightarrow> string \<Rightarrow> event list \<times> team list outcome" where
  "getTeams get org user =
     (case get of
        Rejected \<Rightarrow> ([Fetch (GetTeams org user)], Threw)
      | Response status text json \<Rightarrow>
          if \<not> ok status
          then (case text of
                  None \<Rightarrow> ([Fetch (GetTeams org user)], Threw)
                | Some errorText \<Rightarrow>
                    ([Fetch (GetTeams org user), LogError (ApiReturned status),
                      LogError (ErrorBody errorText), Exit 1], ProcessExit))
          else (case json of
                  None \<Rightarrow> ([Fetch (GetTeams org user)], Threw)
                | Some data \<Rightarrow> ([Fetch (GetTeams org user)], Returned data)))"

text \<open>
  \<open>main\<close>, lines 86-138: the arguments, the token of the environment, the answer to the
  list of teams and the answers to the updates; the result is the trace of the run.
\<close>

definition main ::
  "string list \<Rightarrow> string option \<Rightarrow> team list response \<Rightarrow> (nat \<Rightarrow> string response) \<Rightarrow> event list" where
  "main args token get put =
     (let dryRun = (arg args 0 = Some ''--dry-run'');
          org = (if dryRun then arg args 1 else arg args 0);
          username = (if dryRun then arg args 2 else arg args 1)
      in if falsy org \<or> falsy username
         then [LogError ParametersRequired, LogError Usage, Exit 1]
         else if falsy token then [LogError TokenNotSet, Exit 1]
         else
           (case (org, username) of
              (Some org, Some username) \<Rightarrow>
                Log (FetchingTeams username org)
                # (case getTeams get org username of
                     (evs, Returned teams) \<Rightarrow>
                       evs @ Log (FoundTeams (length teams))
                       # (if dryRun
                          then Log DryRunNamesHeader # map (\<lambda>team. Log (TeamLine (team_name team))) teams
                          else Log (TeamsJson teams) # setMaintainer put org username teams)
                   | (evs, Threw) \<Rightarrow> evs @ [LogError Caught, Exit 1]
                   | (evs, _) \<Rightarrow> evs)
            | _ \<Rightarrow> [LogError ParametersRequired, LogError Usage, Exit 1]))"

subsection \<open>The GraphQL script (src/unnamed/part_001)\<close>

text \<open>The interfaces of lines 16-58; a member is kept as its login.\<close>

record team_with_members = team +
  team_id :: string
  members :: "string list"

record pageInfo =
  hasNextPage :: bool
  endCursor :: "string option"

record members_connection =
  member_logins :: "string list"
  members_pageInfo :: pageInfo

record GraphQLTeamNode =
  node_name :: string
  node_slug :: string
  node_id :: string
  node_members :: members_connection

record teams_connection =
  teams_nodes :: "GraphQLTeamNode list"
  teams_pageInfo :: pageInfo

text \<open>The parsed body of a GraphQL answer: \<^verbatim>\<open>data.errors\<close> is set, or the data asked for.\<close>

datatype 'd graphql_body = GraphQLErrors | GraphQLData 'd

text \<open>\<open>setMaintainer\<close> of src/unnamed/part_001, lines 264-305.\<close>

definition setMaintainer_graphql ::
  "(nat \<Rightarrow> string response) \<Rightarrow> string \<Rightarrow> string \<Rightarrow> 'a team_scheme list \<Rightarrow> event list" where
  "setMaintainer_graphql put org username teams = setMaintainer_by team_slug put org username teams"

text \<open>\<open>executeGraphQL\<close>, lines 63-92, for the request \<open>req\<close> and its answer.\<close>

definition executeGraphQL :: "request \<Rightarrow> 'd graphql_body response \<Rightarrow> event list \<times> 'd outcome" where
  "executeGraphQL req answer =
     (case answer of
        Rejected \<Rightarrow> ([Fetch req], Threw)
      | Response status text json \<Rightarrow>
          if \<not> ok status
          then (case text of
                  None \<Rightarrow> ([Fetch req], Threw)
                | Some errorText \<Rightarrow>
                    ([Fetch req, LogError (GraphQLApiReturned status),
                      LogError (ErrorBody errorText), Exit 1], ProcessExit))
          else (case json of
                  None \<Rightarrow> ([Fetch req], Threw)
                | Some GraphQLErrors \<Rightarrow> ([Fetch req, LogError GraphQLErrorsFound, Exit 1], ProcessExit)
                | Some (GraphQLData d) \<Rightarrow> ([Fetch req], Returned d)))"

text \<open>
  \<open>getAdditionalMembers\<close>, lines 97-148. \<open>members_api n\<close> is the answer to the \<open>n\<close>-th
  members query of the run, \<open>None\<close> inside it when the team is \<^verbatim>\<open>null\<close>. The loop runs while
  the server reports a next page, so it takes fuel: one unit for each iteration. Besides
  the members the result carries the number of members queries made so far.
\<close>

type_synonym members_api = "nat \<Rightarrow> members_connection option graphql_body response"

fun getAdditionalMembers_loop ::
  "nat \<Rightarrow> members_api \<Rightarrow> string \<Rightarrow> string \<Rightarrow> bool \<Rightarrow> string list \<Rightarrow> string option \<Rightarrow> nat
     \<Rightarrow> event list \<times> (string list \<times> nat) outcome" where
  "getAdditionalMembers_loop fuel members_api org teamSlug False mem currentCursor n =
     ([], Returned (mem, n))"
| "getAdditionalMembers_loop 0 members_api org teamSlug True mem currentCursor n =
     ([], OutOfFuel)"
| "getAdditionalMembers_loop (Suc fuel) members_api org teamSlug True mem currentCursor n =
     (case executeGraphQL (PostMembersQuery org teamSlug currentCursor) (members_api n) of
        (evs, Returned teamMembers) \<Rightarrow>
          (case teamMembers of
             None \<Rightarrow> (evs, Returned (mem, Suc n))
           | Some conn \<Rightarrow>
               (let (evs', r) = getAdditionalMembers_loop fuel members_api org teamSlug
                                  (hasNextPage (members_pageInfo conn))
                                  (mem @ member_logins conn)
                                  (endCursor (members_pageInfo conn)) (Suc n)
                in (evs @ evs', r)))
      | (evs, Threw) \<Rightarrow> (evs, Threw)
      | (evs, ProcessExit) \<Rightarrow> (evs, ProcessExit)
      | (evs, OutOfFuel) \<Rightarrow> (evs, OutOfFuel))"

definition getAdditionalMembers ::
  "nat \<Rightarrow> members_api \<Rightarrow> string \<Rightarrow> string \<Rightarrow> string \<Rightarrow> nat
     \<Rightarrow> event list \<times> (string list \<times> nat) outcome" where
  "getAdditionalMembers fuel members_api org teamSlug cursor n =
     getAdditionalMembers_loop fuel members_api org teamSlug True [] (Some cursor) n"

text \<open>
  The loop over the teams of one page, lines 203-227 of \<open>getAllTeamsWithMembers\<close>: \<open>teams\<close>
  is the array built so far.
\<close>

fun teams_of_page ::
  "nat \<Rightarrow> members_api \<Rightarrow> string \<Rightarrow> GraphQLTeamNode list \<Rightarrow> team_with_members list \<Rightarrow> nat
     \<Rightarrow> event list \<times> (team_with_members list \<times> nat) outcome" where
  "teams_of_page fuel members_api org [] teams n = ([], Returned (teams, n))"
| "teams_of_page fuel members_api org (node # nodes) teams n =
     (let info = members_pageInfo (node_members node)
      in if hasNextPage info \<and> \<not> falsy (endCursor info)
         then
           (case getAdditionalMembers fuel members_api org (node_slug node)
                   (case endCursor info of Some c \<Rightarrow> c | None \<Rightarrow> []) n of
              (evs, Returned (additionalMembers, n')) \<Rightarrow>
                (let team = \<lparr>team_name = node_name node, team_slug = node_slug node,
                              team_id = node_id node,
                              members = member_logins (node_members node) @ additionalMembers\<rparr>;
                     (evs', r) = teams_of_page fuel members_api org nodes (teams @ [team]) n'
                 in (Log (MoreThan100Members (node_name node)) # evs @ evs', r))
            | (evs, Threw) \<Rightarrow> (Log (MoreThan100Members (node_name node)) # evs, Threw)
            | (evs, ProcessExit) \<Rightarrow> (Log (MoreThan100Members (node_name node)) # evs, ProcessExit)
            | (evs, OutOfFuel) \<Rightarrow> (Log (MoreThan100Members (node_name node)) # evs, OutOfFuel))
         else
           (let team = \<lparr>team_name = node_name node, team_slug = node_slug node,
                         team_id = node_id node,
                         members = member_logins (node_members node)\<rparr>
            in teams_of_page fuel members_api org nodes (teams @ [team]) n))"

text \<open>
  \<open>getAllTeamsWithMembers\<close>, lines 153-236. \<open>teams_api k\<close> is the answer to the query for
  the \<open>k\<close>-th page of teams. The loop takes fuel as the one above does.
\<close>

type_synonym teams_api = "nat \<Rightarrow> teams_connection graphql_body response"

fun getAllTeamsWithMembers_loop ::
  "nat \<Rightarrow> teams_api \<Rightarrow> members_api \<Rightarrow> string \<Rightarrow> bool \<Rightarrow> team_with_members list
     \<Rightarrow> string option \<Rightarrow> nat \<Rightarrow> nat \<Rightarrow> event list \<times> team_with_members list outcome" where
  "getAllTeamsWithMembers_loop fuel teams_api members_api org False teams cursor k n =
     ([], Returned teams)"
| "getAllTeamsWithMembers_loop 0 teams_api members_api org True teams cursor k n =
     ([], OutOfFuel)"
| "getAllTeamsWithMembers_loop (Suc fuel) teams_api members_api org True teams cursor k n =
     (case executeGraphQL (PostTeamsQuery org cursor) (teams_api k) of
        (evs, Returned teamsData) \<Rightarrow>
          (case teams_of_page fuel members_api org (teams_nodes teamsData) teams n of
             (evs', Returned (teams', n')) \<Rightarrow>
               (let (evs'', r) = getAllTeamsWithMembers_loop fuel teams_api members_api org
                                   (hasNextPage (teams_pageInfo teamsData)) teams'
                                   (endCursor (teams_pageInfo teamsData)) (Suc k) n'
                in (evs @ evs' @ Log (FetchedSoFar (length teams')) # evs'', r))
           | (evs', Threw) \<Rightarrow> (evs @ evs', Threw)
           | (evs', ProcessExit) \<Rightarrow> (evs @ evs', ProcessExit)
           | (evs', OutOfFuel) \<Rightarrow> (evs @ evs', OutOfFuel))
      | (evs, Threw) \<Rightarrow> (evs, Threw)
      | (evs, ProcessExit) \<Rightarrow> (evs, ProcessExit)
      | (evs, OutOfFuel) \<Rightarrow> (evs, OutOfFuel))"

definition getAllTeamsWithMembers ::
  "nat \<Rightarrow> teams_api \<Rightarrow> members_api \<Rightarrow> string \<Rightarrow> event list \<times> team_with_members list outcome" where
  "getAllTeamsWithMembers fuel teams_api members_api org =
     getAllTeamsWithMembers_loop fuel teams_api members_api org True [] None 0 0"

text \<open>\<open>filterTeamsByUser\<close>, lines 241-259: the lines it prints and the teams it returns.\<close>

definition filterTeamsByUser ::
  "team_with_members list \<Rightarrow> string \<Rightarrow> event list \<times> team_with_members list" where
  "filterTeamsByUser teams username =
     (let teamsWithUser = filter (\<lambda>team. list_ex (\<lambda>member. member = username) (members team)) teams
      in (Log (FilteringTeams username)
          # map (\<lambda>team. Log (FoundIn (team_name team) (team_slug team))) teamsWithUser,
          teamsWithUser))"

text \<open>\<open>main\<close>, lines 307-363.\<close>

definition main_graphql ::
  "nat \<Rightarrow> string list \<Rightarrow> string option \<Rightarrow> teams_api \<Rightarrow> members_api \<Rightarrow> (nat \<Rightarrow> string response)
     \<Rightarrow> event list" where
  "main_graphql fuel args token teams_api members_api put =
     (let dryRun = (arg args 0 = Some ''--dry-run'');
          org = (if dryRun then arg args 1 else arg args 0);
          username = (if dryRun then arg args 2 else arg args 1)
      in if falsy org \<or> falsy username
         then [LogError ParametersRequired, LogError Usage, Exit 1]
         else if falsy token then [LogError TokenNotSet, Exit 1]
         else
           (case (org, username) of
              (Some org, Some username) \<Rightarrow>
                Log (FetchingAllTeams org)
                # (case getAllTeamsWithMembers fuel teams_api members_api org of
                     (evs, Returned allTeams) \<Rightarrow>
                       (let (evs', teamsWithUser) = filterTeamsByUser allTeams username
                        in evs @ Log (FoundTeamsInTotal (length allTeams))
                           # evs'
                           @ [Log ResultsHeader, Log (MemberOfTeams username (length teamsWithUser))]
                           @ (if dryRun
                              then Log DryRunSlugsHeader
                                   # map (\<lambda>team. Log (TeamLine (team_slug team))) teamsWithUser
                              else setMaintainer_graphql put org username teamsWithUser))
                   | (evs, Threw) \<Rightarrow> evs @ [LogError Caught, Exit 1]
                   | (evs, _) \<Rightarrow> evs)
            | _ \<Rightarrow> [LogError ParametersRequired, LogError Usage, Exit 1]))"

text \<open>The requests of a trace, in order.\<close>

fun requests_of :: "event list \<Rightarrow> request list" where
  "requests_of [] = []"
| "requests_of (Fetch req # evs) = req # requests_of evs"
| "requests_of (_ # evs) = requests_of evs"

text \<open>The events that only \<open>setMaintainer\<close> produces, the \<^verbatim>\<open>PUT\<close> among them.\<close>

fun of_setMaintainer :: "event \<Rightarrow> bool" where
  "of_setMaintainer (Fetch req) = (http_method_of req = PUT)"
| "of_setMaintainer (Log (SettingMaintainer username n org)) = True"
| "of_setMaintainer (Log (ProcessingTeam teamSlug)) = True"
| "of_setMaintainer (Log (Success username role teamSlug)) = True"
| "of_setMaintainer (Log Done) = True"
| "of_setMaintainer (LogError (TeamApiReturned status)) = True"
| "of_setMaintainer (LogError (ErrorProcessingTeam teamSlug)) = True"
| "of_setMaintainer _ = False"

text \<open>A trace in which \<open>setMaintainer\<close> left nothing.\<close>

abbreviation quiet :: "event list \<Rightarrow> bool" where
  "quiet evs \<equiv> list_all (\<lambda>e. \<not> of_setMaintainer e) evs"

section \<open>Sample inputs\<close>

text \<open>Concrete alerts and API answers on which the theorems below are instantiated.\<close>

definition closed_alert :: "string option \<Rightarrow> string \<Rightarrow> int \<Rightarrow> int \<Rightarrow> alert" where
  "closed_alert m ty t1 t2 = \<lparr>monitorId = m, alert_type = ty, openedAt = t1, closedAt = Some t2\<rparr>"

text \<open>An API that has a single page and answers every request with it.\<close>

definition one_page :: "alert list \<Rightarrow> alerts_api" where
  "one_page as n c = ListResolved as None"

text \<open>
  An API with two pages: the first holds two alerts opened at 900 s and 800 s and a cursor,
  the second holds an alert opened 5 ms before the epoch.
\<close>

definition two_pages :: alerts_api where
  "two_pages n c =
     (if n = 0
      then ListResolved [closed_alert (Some ''web'') ''host'' 900000 960000,
                         closed_alert (Some ''web'') ''host'' 800000 860000] (Some ''c1'')
      else ListResolved [closed_alert (Some ''web'') ''host'' (- 5) 60000] None)"

text \<open>Three alerts of one monitor, 50 minutes each, inside a window of 100 minutes.\<close>

definition busy_alerts :: "alert list" where
  "busy_alerts = [closed_alert (Some ''web'') ''host'' 600000 3600000,
                  closed_alert (Some ''web'') ''host'' 1200000 4200000,
                  closed_alert (Some ''web'') ''host'' 1800000 4800000]"

text \<open>A check monitor, a deleted monitor and a host monitor, one alert each.\<close>

definition mixed_alerts :: "alert list" where
  "mixed_alerts = [closed_alert (Some ''chk'') ''check'' 600000 660000,
                   closed_alert None ''host'' 700000 760000,
                   closed_alert (Some ''web'') ''host'' 1200000 1320000]"

text \<open>A host monitor of the role \<^verbatim>\<open>svcA:role\<close>, as each of the two scripts sees it.\<close>

definition role_monitor :: monitor where
  "role_monitor = \<lparr>monitor_id = ''mon1'', monitor_type = ''host'', monitor_name = ''cpu'',
                    scopes = ScopesArray [''svcA:role'']\<rparr>"

definition role_Monitor :: Monitor where
  "role_Monitor = \<lparr>id0 = ''mon1'', type0 = ''host'', name0 = ''cpu'',
                    scopes0 = Some [''svcA:role''], excludeScopes0 = None\<rparr>"

text \<open>A host monitor without scopes.\<close>

definition unscoped_monitor :: monitor where
  "unscoped_monitor = \<lparr>monitor_id = ''mon2'', monitor_type = ''host'', monitor_name = ''disk'',
                        scopes = ScopesAbsent\<rparr>"

definition unscoped_Monitor :: Monitor where
  "unscoped_Monitor = \<lparr>id0 = ''mon2'', type0 = ''host'', name0 = ''disk'',
                        scopes0 = None, excludeScopes0 = None\<rparr>"

text \<open>Two teams, and a server that refuses the first update and accepts the others.\<close>

definition team_a :: team where
  "team_a = \<lparr>team_name = ''Team A'', team_slug = ''team-a''\<rparr>"

definition team_b :: team where
  "team_b = \<lparr>team_name = ''Team B'', team_slug = ''team-b''\<rparr>"

definition first_put_fails :: "nat \<Rightarrow> string response" where
  "first_put_fails i =
     (if i = 0 then Response 404 (Some ''Not Found'') None
      else Response 200 None (Some ''maintainer''))"

text \<open>A GraphQL server with one page of one team, whose only member is alice.\<close>

definition one_team_page :: teams_api where
  "one_team_page k =
     Response 200 None
       (Some (GraphQLData
          \<lparr>teams_nodes =
             [\<lparr>node_name = ''Team A'', node_slug = ''team-a'', node_id = ''T1'',
               node_members =
                 \<lparr>member_logins = [''alice''],
                  members_pageInfo = \<lparr>hasNextPage = False, endCursor = None\<rparr>\<rparr>\<rparr>],
           teams_pageInfo = \<lparr>hasNextPage = False, endCursor = None\<rparr>\<rparr>))"

definition no_members_page :: members_api where
  "no_members_page n = Response 200 None (Some (GraphQLData None))"

section \<open>Facts about mackerel-alert-stats.ts\<close>

subsection \<open>Rounding\<close>

lemma toFixed0_of_int: "toFixed0 (of_int k) = k"
  by (simp add: toFixed0_def)

subsection \<open>Doubles\<close>

text \<open>\<open>binade\<close> is the exponent: \<open>2^binade x \<le> |x| < 2^(binade x + 1)\<close>.\<close>

lemma binade_bounds:
  assumes "x \<noteq> 0"
  shows "2 powi binade x \<le> \<bar>x\<bar> \<and> \<bar>x\<bar> < 2 powi (binade x + 1)"
proof (cases "1 \<le> \<bar>x\<bar>")
  case True
  define n where "n = \<lfloor>\<bar>x\<bar>\<rfloor>"
  have n1: "0 < n" using True by (simp add: n_def)
  have b: "binade x = bitlen n - 1" using True by (simp add: binade_def n_def)
  have b0: "0 \<le> bitlen n - 1" using n1 by (simp add: bitlen_alt_def)
  from bitlen_bounds[OF n1] have lo: "2 ^ nat (bitlen n - 1) \<le> n" and hi: "n < 2 ^ nat (bitlen n)"
    by simp_all
  have "of_int n \<le> \<bar>x\<bar>" by (simp add: n_def)
  moreover have "(2::real) ^ nat (bitlen n - 1) \<le> of_int n"
    using lo by (metis of_int_le_iff of_int_numeral of_int_power)
  ultimately have l: "(2::real) ^ nat (bitlen n - 1) \<le> \<bar>x\<bar>" by linarith
  have "\<bar>x\<bar> < of_int (n + 1)" unfolding n_def by linarith
  moreover have "n + 1 \<le> 2 ^ nat (bitlen n)" using hi by simp
  then have "(of_int (n + 1) :: real) \<le> 2 ^ nat (bitlen n)"
    by (metis of_int_le_iff of_int_numeral of_int_power)
  ultimately have h: "\<bar>x\<bar> < 2 ^ nat (bitlen n)" by linarith
  have "(2::real) powi (bitlen n - 1) = 2 ^ nat (bitlen n - 1)"
    using b0 by (simp add: power_int_def)
  moreover have "(2::real) powi (bitlen n - 1 + 1) = 2 ^ nat (bitlen n)"
    using b0 by (simp add: power_int_def)
  ultimately show ?thesis using l h by (simp add: b)
next
  case False
  define y where "y = 1 / \<bar>x\<bar>"
  define n where "n = \<lfloor>y\<rfloor>"
  define k where "k = bitlen n - 1"
  have xpos: "0 < \<bar>x\<bar>" using assms by simp
  have y1: "1 < y" using False xpos by (simp add: y_def)
  have n1: "0 < n" using y1 by (simp add: n_def)
  have k0: "0 \<le> k" using n1 by (simp add: k_def bitlen_alt_def)
  from bitlen_bounds[OF n1] have lo: "2 ^ nat k \<le> n" and hi: "n < 2 ^ nat (k + 1)"
    by (simp_all add: k_def)
  have "(2::real) ^ nat k \<le> of_int n"
    using lo by (metis of_int_le_iff of_int_numeral of_int_power)
  moreover have "of_int n \<le> y" by (simp add: n_def)
  ultimately have l: "(2::real) ^ nat k \<le> y" by linarith
  have "y < of_int (n + 1)" unfolding n_def by linarith
  moreover have "n + 1 \<le> 2 ^ nat (k + 1)" using hi by simp
  then have "(of_int (n + 1) :: real) \<le> 2 ^ nat (k + 1)"
    by (metis of_int_le_iff of_int_numeral of_int_power)
  ultimately have h: "y < 2 ^ nat (k + 1)" by linarith
  have x_le: "\<bar>x\<bar> * 2 ^ nat k \<le> 1"
    using l xpos by (simp add: y_def field_simps)
  have x_gt: "1 < \<bar>x\<bar> * 2 ^ nat (k + 1)"
    using h xpos by (simp add: y_def field_simps)
  have bin: "binade x = (if \<bar>x\<bar> * 2 ^ nat k = 1 then - k else - k - 1)"
    using False by (simp add: binade_def Let_def y_def n_def k_def)
  have pk: "(2::real) powi (- k) = 1 / 2 ^ nat k"
    using k0 by (simp add: power_int_def field_simps)
  have pk1: "(2::real) powi (- k - 1) = 1 / 2 ^ nat (k + 1)"
    using k0 by (simp add: power_int_def field_simps nat_add_distrib)
  have "(2::real) powi (- k + 1) = 2 powi (- k) * 2 powi 1"
    by (rule power_int_add) simp
  then have pk2: "(2::real) powi (- k + 1) = 2 / 2 ^ nat k"
    by (simp add: pk)
  show ?thesis
  proof (cases "\<bar>x\<bar> * 2 ^ nat k = 1")
    case True
    then have x: "\<bar>x\<bar> = 1 / 2 ^ nat k" by (simp add: field_simps)
    have b: "binade x = - k" using True bin by simp
    have "(1::real) / 2 ^ nat k < 2 / 2 ^ nat k" by (simp add: field_simps)
    then show ?thesis unfolding b x pk pk2 by simp
  next
    case F: False
    with x_le have "\<bar>x\<bar> * 2 ^ nat k < 1" by simp
    then have "\<bar>x\<bar> < 1 / 2 ^ nat k" by (simp add: field_simps)
    moreover have "1 / 2 ^ nat (k + 1) < \<bar>x\<bar>" using x_gt by (simp add: field_simps)
    ultimately show ?thesis using F bin by (simp add: pk pk1)
  qed
qed

text \<open>A number that is a multiple of the spacing of its binade is a double.\<close>

lemma round_half_even_of_int: "round_half_even (of_int w) = w"
  by (simp add: round_half_even_def)

lemma fl_exact:
  assumes "x / 2 powi (binade x - 52) = of_int w"
  shows "fl x = x"
proof (cases "x = 0")
  case True
  then show ?thesis by (simp add: fl_def)
next
  case False
  have nz: "(2::real) powi (binade x - 52) \<noteq> 0" by simp
  have "fl x = of_int w * 2 powi (binade x - 52)"
    using False by (simp add: fl_def assms round_half_even_of_int)
  also have "\<dots> = x"
    using assms nz by (simp add: field_simps)
  finally show ?thesis .
qed

lemma binade_of_int:
  assumes "z \<noteq> 0"
  shows "binade (of_int z) = bitlen \<bar>z\<bar> - 1"
proof -
  have "1 \<le> \<bar>z\<bar>" using assms by simp
  then have "(1::real) \<le> \<bar>of_int z\<bar>" by linarith
  moreover have "\<lfloor>\<bar>real_of_int z\<bar>\<rfloor> = \<bar>z\<bar>"
    by (metis floor_of_int of_int_abs)
  ultimately show ?thesis by (simp add: binade_def)
qed

text \<open>The integers up to \<open>2^53\<close>, and their multiples by a power of two, are doubles.\<close>

lemma fl_of_int:
  assumes "\<bar>z\<bar> \<le> 2 ^ 53"
  shows "fl (of_int z) = of_int z"
proof (cases "z = 0")
  case True
  then show ?thesis by (simp add: fl_def)
next
  case False
  define b where "b = bitlen \<bar>z\<bar> - 1"
  have pos: "0 < \<bar>z\<bar>" using False by simp
  from bitlen_bounds[OF pos]
  have lo: "2 ^ nat b \<le> \<bar>z\<bar>" and hi: "\<bar>z\<bar> < 2 ^ nat (b + 1)"
    by (simp_all add: b_def)
  have b0: "0 \<le> b"
    using pos by (simp add: b_def bitlen_alt_def)
  have le: "(2::int) ^ nat b \<le> 2 ^ 53" using lo assms by linarith
  have "nat b \<le> 53"
  proof (rule ccontr)
    assume "\<not> nat b \<le> 53"
    then have "54 \<le> nat b" by simp
    then have "(2::int) ^ 54 \<le> 2 ^ nat b" by (rule power_increasing) simp
    with le show False by simp
  qed
  then have b53: "b \<le> 53" by simp
  have bin: "binade (of_int z) = b"
    using binade_of_int[OF False] by (simp add: b_def)
  show ?thesis
  proof (cases "b \<le> 52")
    case True
    have "(2::real) powi (b - 52) = 1 / 2 ^ nat (52 - b)"
      using True by (simp add: power_int_def field_simps)
    then have "of_int z / (2::real) powi (b - 52) = of_int (z * 2 ^ nat (52 - b))"
      by simp
    then show ?thesis using bin by (intro fl_exact[where w = "z * 2 ^ nat (52 - b)"]) simp
  next
    case False
    with b53 have b: "b = 53" by simp
    from lo assms b have az: "\<bar>z\<bar> = 2 ^ 53" by simp
    then have "z = 2 ^ 53 \<or> z = - (2 ^ 53)" by linarith
    then have "of_int z / (2::real) powi (b - 52) = of_int (z div 2)"
      using b by auto
    then show ?thesis using bin by (intro fl_exact[where w = "z div 2"]) simp
  qed
qed

lemma fl_numeral: "numeral n \<le> (2 ^ 53 :: int) \<Longrightarrow> fl (numeral n) = numeral n"
  using fl_of_int[of "numeral n"] by simp

lemma fl_one: "fl 1 = 1"
  using fl_of_int[of 1] by simp

lemma fl_zero: "fl 0 = 0"
  by (simp add: fl_def)

lemma fl_three_halves: "fl (3 / 2) = 3 / 2"
  by code_simp

lemma fl_300th: "fl (1 / 300) = 7686143364045647 / 2305843009213693952"
  by code_simp

lemma fl_300th_idem: "fl (7686143364045647 / 2305843009213693952) = 7686143364045647 / 2305843009213693952"
  by code_simp

lemma fl_of_int_shift:
  assumes "\<bar>m\<bar> \<le> 2 ^ 53"
  shows "fl (of_int (m * 2 ^ s)) = of_int (m * 2 ^ s)"
proof (cases "m = 0")
  case True
  then show ?thesis by (simp add: fl_def)
next
  case False
  define b where "b = bitlen \<bar>m\<bar> - 1"
  have pos: "0 < \<bar>m\<bar>" using False by simp
  from bitlen_bounds[OF pos]
  have lo: "2 ^ nat b \<le> \<bar>m\<bar>"
    by (simp_all add: b_def)
  have b0: "0 \<le> b"
    using pos by (simp add: b_def bitlen_alt_def)
  have le: "(2::int) ^ nat b \<le> 2 ^ 53" using lo assms by linarith
  have "nat b \<le> 53"
  proof (rule ccontr)
    assume "\<not> nat b \<le> 53"
    then have "54 \<le> nat b" by simp
    then have "(2::int) ^ 54 \<le> 2 ^ nat b" by (rule power_increasing) simp
    with le show False by simp
  qed
  then have b53: "b \<le> 53" by simp
  have nz: "m * 2 ^ s \<noteq> 0" using False by simp
  have "bitlen \<bar>m * 2 ^ s\<bar> = bitlen (\<bar>m\<bar> * 2 ^ s)"
    by (simp add: abs_mult)
  also have "\<dots> = bitlen \<bar>m\<bar> + int s"
    by (rule bitlen_pow2[OF pos])
  finally have bin: "binade (of_int (m * 2 ^ s)) = b + int s"
    using binade_of_int[OF nz] by (simp add: b_def)
  have split: "(2::real) powi (b + int s - 52) = 2 ^ s * 2 powi (b - 52)"
    by (simp add: power_int_add power_int_diff field_simps)
  show ?thesis
  proof (cases "b \<le> 52")
    case True
    have "(2::real) powi (b - 52) = 1 / 2 ^ nat (52 - b)"
      using True by (simp add: power_int_def field_simps)
    then have "of_int (m * 2 ^ s) / (2::real) powi (b + int s - 52) = of_int (m * 2 ^ nat (52 - b))"
      by (simp add: split)
    then show ?thesis using bin by (intro fl_exact[where w = "m * 2 ^ nat (52 - b)"]) simp
  next
    case F: False
    with b53 have b: "b = 53" by simp
    from lo assms b have az: "\<bar>m\<bar> = 2 ^ 53" by simp
    then have m: "m = 2 ^ 53 \<or> m = - (2 ^ 53)" by linarith
    have pw: "(2::real) powi (b + int s - 52) = 2 ^ s * 2"
      unfolding split by (simp add: b)
    have "of_int (m * 2 ^ s) / (2 ^ s * 2 :: real) = of_int (m div 2)"
      using m by auto
    then have "of_int (m * 2 ^ s) / (2::real) powi (b + int s - 52) = of_int (m div 2)"
      by (simp only: pw)
    then show ?thesis using bin by (intro fl_exact[where w = "m div 2"]) simp
  qed
qed

text \<open>
  The loop of \<^verbatim>\<open>reduce\<close> over equal whole numbers stays exact while the sum is at most
  \<open>2^53\<close>.
\<close>

lemma fl_sum_whole_minutes:
  "\<forall>x\<in>set xs. x = of_int k \<Longrightarrow> (int j + int (length xs)) * \<bar>k\<bar> \<le> 2 ^ 53 \<Longrightarrow>
     foldl (\<lambda>acc cur. fl (acc + cur)) (of_int (int j * k)) xs
       = of_int ((int j + int (length xs)) * k)"
proof (induction xs arbitrary: j)
  case Nil
  then show ?case by simp
next
  case (Cons x xs)
  have x: "x = of_int k" using Cons.prems(1) by simp
  have "(int j + 1) * \<bar>k\<bar> \<le> (int j + int (length (x # xs))) * \<bar>k\<bar>"
    by (intro mult_right_mono) simp_all
  with Cons.prems(2) have small: "\<bar>(int j + 1) * k\<bar> \<le> 2 ^ 53"
    by (simp add: abs_mult)
  have "of_int (int j * k) + x = (of_int ((int j + 1) * k) :: real)"
    by (simp add: x algebra_simps)
  then have step: "fl (of_int (int j * k) + x) = of_int (int (Suc j) * k)"
    using fl_of_int[OF small] by simp
  have rest: "foldl (\<lambda>acc cur. fl (acc + cur)) (of_int (int (Suc j) * k)) xs
          = of_int ((int (Suc j) + int (length xs)) * k)"
    using Cons.prems by (intro Cons.IH) (simp_all add: add.assoc add.commute add.left_commute)
  have "foldl (\<lambda>acc cur. fl (acc + cur)) (of_int (int j * k)) (x # xs)
          = foldl (\<lambda>acc cur. fl (acc + cur)) (fl (of_int (int j * k) + x)) xs"
    by (simp only: foldl_Cons)
  also have "\<dots> = of_int ((int (Suc j) + int (length xs)) * k)"
    by (simp only: step rest)
  also have "\<dots> = of_int ((int j + int (length (x # xs))) * k)"
    by (simp add: algebra_simps)
  finally show ?case .
qed

text \<open>
  The rounding is visible in the result: three alerts of 42, 131 and 277 seconds have a mean
  of exactly 2.5 minutes, which \<^verbatim>\<open>toFixed(0)\<close> would print as 3, but the doubles of
  lines 67-69 give a mean just below 2.5, printed as 2.
\<close>

lemma fl_mean_below_half:
  "toFixed0
     (fl (fl (fl (fl (0 + fl (fl 42000 / 60000)) + fl (fl 131000 / 60000))
                + fl (fl 277000 / 60000)) / fl 3)) = 2"
  by code_simp

lemma getMTTR_rounds_in_doubles:
  "getMTTR 0 [closed_alert (Some ''web'') ''host'' 0 42000,
              closed_alert (Some ''web'') ''host'' 0 131000,
              closed_alert (Some ''web'') ''host'' 0 277000] = 2"
  using fl_mean_below_half by (simp add: getMTTR_def closed_alert_def fl_numeral fl_zero)

subsection \<open>The window\<close>

lemma Math_round_minutes_pos: "(30000::real) \<le> x \<Longrightarrow> 0 < Math_round (x / 60000)"
proof -
  assume "30000 \<le> x"
  then have "1 \<le> x / 60000 + 1 / 2" by (simp add: field_simps)
  then have "1 \<le> \<lfloor>x / 60000 + 1 / 2\<rfloor>" by (simp add: le_floor_iff)
  then show ?thesis by (simp add: Math_round_def)
qed

lemma Math_round_minutes_zero: "(0::real) < x \<Longrightarrow> x < 30000 \<Longrightarrow> Math_round (x / 60000) = 0"
proof -
  assume "0 < x" "x < 30000"
  then have "0 \<le> x / 60000 + 1 / 2" "x / 60000 + 1 / 2 < 1" by (simp_all add: field_simps)
  then have "\<lfloor>x / 60000 + 1 / 2\<rfloor> = 0" by (simp add: floor_eq_iff)
  then show ?thesis by (simp add: Math_round_def)
qed

lemma windowMin_pos:
  assumes "30000 \<le> to - from"
  shows "0 < windowMin from to"
proof -
  have "(30000::real) \<le> of_int (to - from)" using assms by linarith
  then show ?thesis unfolding windowMin_def by (rule Math_round_minutes_pos)
qed

lemma windowMin_zero:
  assumes "from < to" and "to - from < 30000"
  shows "windowMin from to = 0"
proof -
  have "(0::real) < of_int (to - from)" "of_int (to - from) < (30000::real)"
    using assms by linarith+
  then show ?thesis unfolding windowMin_def by (rule Math_round_minutes_zero)
qed

text \<open>On a window shorter than 30 seconds no downtime gives \<open>0 / 0\<close>.\<close>

lemma short_window_gives_NaN:
  assumes "from < to" and "to - from < 30000" and "downTime stats = 0"
  shows "availability (windowMin from to) stats = NaN"
  using windowMin_zero[OF assms(1,2)] assms(3)
  by (simp add: availability_def js_div_def)

subsection \<open>The fetch\<close>

text \<open>
  When the clock is not before the bound, the test of line 79 holds in the first
  iteration: the function returns the first page after a single request.
\<close>

lemma getAlerts_first_page:
  "date_ge now from \<Longrightarrow> api 0 None = ListResolved as c \<Longrightarrow>
     getAlerts api now from = Some (Inr (as, [None]))"
  unfolding getAlerts_def by (subst getAlerts_loop.simps) simp

subsection \<open>Groups\<close>

lemma group_members_simps:
  "group_members [] = []"
  "group_members ((k, xs) # g) = xs @ group_members g"
  by (simp_all add: group_members_def)

lemma groupBy_add_members:
  "set (group_members (groupBy_add k x g)) = insert x (set (group_members g))"
proof (induction g)
  case Nil
  show ?case by (simp add: group_members_simps)
next
  case (Cons e g)
  obtain k' xs where e: "e = (k', xs)" by (cases e)
  show ?case
  proof (cases "k = k'")
    case True
    then show ?thesis by (auto simp add: e group_members_simps)
  next
    case False
    then show ?thesis using Cons.IH by (auto simp add: e group_members_simps)
  qed
qed

lemma foldl_groupBy_members:
  "set (group_members (foldl (\<lambda>g x. groupBy_add (keyOf x) x g) g0 xs)) =
     set xs \<union> set (group_members g0)"
  by (induction xs arbitrary: g0) (simp_all add: groupBy_add_members)

lemma Object_groupBy_members: "set (group_members (Object_groupBy xs keyOf)) = set xs"
  by (simp add: Object_groupBy_def foldl_groupBy_members group_members_simps)

lemma groupBy_add_keys: "set (map fst (groupBy_add k x g)) = insert k (set (map fst g))"
proof (induction g)
  case Nil
  show ?case by simp
next
  case (Cons e g)
  obtain k' xs where e: "e = (k', xs)" by (cases e)
  show ?case
  proof (cases "k = k'")
    case True
    then show ?thesis by (simp add: e)
  next
    case False
    then show ?thesis using Cons.IH by (simp add: e insert_commute del: set_map)
  qed
qed

lemma groupBy_add_distinct:
  "distinct (map fst g) \<Longrightarrow> distinct (map fst (groupBy_add k x g))"
proof (induction g)
  case Nil
  show ?case by simp
next
  case (Cons e g)
  obtain k' xs where e: "e = (k', xs)" by (cases e)
  show ?case
  proof (cases "k = k'")
    case True
    with Cons.prems show ?thesis by (simp add: e)
  next
    case False
    from Cons.prems have "k' \<notin> set (map fst g)" "distinct (map fst g)" by (simp_all add: e)
    with False Cons.IH show ?thesis by (simp add: e groupBy_add_keys del: set_map)
  qed
qed

lemma groupBy_add_nonempty:
  "list_all (\<lambda>e. snd e \<noteq> []) g \<Longrightarrow> list_all (\<lambda>e. snd e \<noteq> []) (groupBy_add k x g)"
  by (induction g) auto

lemma foldl_groupBy_inv:
  "distinct (map fst g0) \<Longrightarrow> list_all (\<lambda>e. snd e \<noteq> []) g0 \<Longrightarrow>
     distinct (map fst (foldl (\<lambda>g x. groupBy_add (keyOf x) x g) g0 xs))
     \<and> list_all (\<lambda>e. snd e \<noteq> []) (foldl (\<lambda>g x. groupBy_add (keyOf x) x g) g0 xs)"
  by (induction xs arbitrary: g0) (simp_all add: groupBy_add_distinct groupBy_add_nonempty)

lemma Object_groupBy_distinct: "distinct (map fst (Object_groupBy xs keyOf))"
  using foldl_groupBy_inv[of "[]" keyOf xs] by (simp add: Object_groupBy_def)

lemma Object_groupBy_nonempty: "(k, as) \<in> set (Object_groupBy xs keyOf) \<Longrightarrow> as \<noteq> []"
  using foldl_groupBy_inv[of "[]" keyOf xs] by (auto simp add: Object_groupBy_def list_all_iff)

lemma set_Object_entries: "set (Object_entries g) = set g"
  by (auto simp add: Object_entries_def)

lemma distinct_keys_unique:
  "distinct (map fst g) \<Longrightarrow> (k, xs) \<in> set g \<Longrightarrow> (k, ys) \<in> set g \<Longrightarrow> xs = ys"
  by (metis map_of_is_SomeI option.inject)

subsection \<open>The report loop\<close>

lemma report_loop_skip:
  "alert_type a0 = ''check'' \<or> monitorId a0 = None \<Longrightarrow>
     report_loop get now wm prv ((k, a0 # as) # rest) = report_loop get now wm prv rest"
  by auto

lemma report_loop_rejected:
  "alert_type a0 \<noteq> ''check'' \<Longrightarrow> monitorId a0 \<noteq> None \<Longrightarrow> get k = None \<Longrightarrow>
     report_loop get now wm prv ((k, a0 # as) # rest) = ([MonitorGet k], Some RequestRejected)"
  by auto

lemma report_loop_line:
  "alert_type a0 \<noteq> ''check'' \<Longrightarrow> monitorId a0 \<noteq> None \<Longrightarrow> get k = Some name \<Longrightarrow>
     fst (report_loop get now wm prv ((k, a0 # as) # rest)) =
       MonitorGet k
       # PrintLine k name (getAlertStats now (a0 # as)) (getAlertStats now (group_or_empty prv k))
           (availability wm (getAlertStats now (a0 # as)))
           (availability wm (getAlertStats now (group_or_empty prv k)))
       # fst (report_loop get now wm prv rest)"
  by (simp add: Let_def split: prod.splits)

lemma report_loop_keys:
  "e \<in> set (fst (report_loop get now wm prv entries)) \<Longrightarrow> event_key e = Some k \<Longrightarrow>
     \<exists>a0 as. (k, a0 # as) \<in> set entries \<and> alert_type a0 \<noteq> ''check'' \<and> monitorId a0 \<noteq> None"
proof (induction entries)
  case Nil
  then show ?case by simp
next
  case (Cons g entries)
  obtain k' xs where g: "g = (k', xs)" by (cases g)
  show ?case
  proof (cases xs)
    case Nil
    with Cons.prems g show ?thesis by simp
  next
    case xs: (Cons a0 as)
    show ?thesis
    proof (cases "alert_type a0 = ''check'' \<or> monitorId a0 = None")
      case True
      from Cons.prems(1) have "e \<in> set (fst (report_loop get now wm prv entries))"
        unfolding g xs report_loop_skip[of a0, OF True] .
      from Cons.IH[OF this Cons.prems(2)] show ?thesis by auto
    next
      case False
      then have ok: "alert_type a0 \<noteq> ''check''" "monitorId a0 \<noteq> None" by simp_all
      have here: "k = k' \<Longrightarrow> ?thesis" using ok g xs by auto
      show ?thesis
      proof (cases "get k'")
        case None
        from Cons.prems(1) have "e = MonitorGet k'"
          unfolding g xs report_loop_rejected[of a0 get k', OF ok None] by simp
        with Cons.prems(2) here show ?thesis by simp
      next
        case (Some name)
        from Cons.prems(1)
        consider "e = MonitorGet k'"
          | "e = PrintLine k' name (getAlertStats now (a0 # as)) (getAlertStats now (group_or_empty prv k'))
                   (availability wm (getAlertStats now (a0 # as)))
                   (availability wm (getAlertStats now (group_or_empty prv k')))"
          | "e \<in> set (fst (report_loop get now wm prv entries))"
          unfolding g xs report_loop_line[of a0 get k', OF ok Some] by auto
        then show ?thesis
        proof cases
          case 1
          with Cons.prems(2) here show ?thesis by simp
        next
          case 2
          with Cons.prems(2) here show ?thesis by simp
        next
          case 3
          from Cons.IH[OF this Cons.prems(2)] show ?thesis by auto
        qed
      qed
    qed
  qed
qed

lemma report_loop_groupBy_skips:
  assumes grp: "(k, as) \<in> set (Object_groupBy xs keyOf)"
    and skip: "list_all (\<lambda>a. alert_type a = ''check'') as \<or> list_all (\<lambda>a. monitorId a = None) as"
    and e: "e \<in> set (fst (report_loop get now wm prv (Object_entries (Object_groupBy xs keyOf))))"
  shows "event_key e \<noteq> Some k"
proof
  assume "event_key e = Some k"
  from report_loop_keys[OF e this] obtain a0 as' where
    in_g: "(k, a0 # as') \<in> set (Object_groupBy xs keyOf)"
    and a0: "alert_type a0 \<noteq> ''check''" "monitorId a0 \<noteq> None"
    by (auto simp add: set_Object_entries)
  have "as = a0 # as'"
    by (rule distinct_keys_unique[OF Object_groupBy_distinct grp in_g])
  with skip a0 show False by auto
qed

lemma script_events:
  assumes "alert_stats_script apiKey (Some from) (Some to) api get now = Some (evs, r)"
    and "getAlertsByMonitor api now (prev from to) (Some from) (Some to) = Some (Inr (cur, prv))"
  shows "evs = [] \<or>
         evs = PrintTitle (Some from) (Some to) (prev from to) # PrintColumns
                 # fst (report_loop get now (windowMin from to) prv (Object_entries cur))"
  using assms by (auto simp add: alert_stats_script_def split: option.splits if_splits prod.splits)

lemma getAlertsByMonitor_groups:
  assumes "getAlertsByMonitor api now p from to = Some (Inr (cur, prv))"
  shows "\<exists>alerts requests. getAlerts api now p = Some (Inr (alerts, requests))
           \<and> (cur, prv) = windowGroups p from to alerts"
  using assms by (auto simp add: getAlertsByMonitor_def split: option.splits sum.splits prod.splits)

subsection \<open>Sample runs\<close>

lemma mixed_fetch:
  "getAlerts (one_page mixed_alerts) 7000000 (prev 0 6000000) = Some (Inr (mixed_alerts, [None]))"
  by (rule getAlerts_first_page) (simp_all add: prev_def new_Date_def date_ge_def one_page_def)

lemma mixed_groups:
  "getAlertsByMonitor (one_page mixed_alerts) 7000000 (prev 0 6000000) (Some 0) (Some 6000000) =
     Some (Inr ([(''chk'', [closed_alert (Some ''chk'') ''check'' 600000 660000]),
                 (''null'', [closed_alert None ''host'' 700000 760000]),
                 (''web'', [closed_alert (Some ''web'') ''host'' 1200000 1320000])], []))"
  by (simp add: getAlertsByMonitor_def mixed_fetch)
     (simp add: windowGroups_def mixed_alerts_def closed_alert_def Object_groupBy_def prev_def
        new_Date_def date_ge_def date_lt_def propertyKey_def)

lemma mixed_entries:
  "Object_entries [(''chk'', xs), (''null'', ys), (''web'', zs)] = [(''chk'', xs), (''null'', ys), (''web'', zs)]"
  by (simp add: Object_entries_def is_array_index_def is_digit_def)

lemma mixed_run:
  "alert_stats_script (Some ''key'') (Some 0) (Some 6000000) (one_page mixed_alerts) (\<lambda>k. Some ''Web latency'') 7000000
   = Some ([PrintTitle (Some 0) (Some 6000000) (Some (- 6000000)), PrintColumns, MonitorGet ''web'',
            PrintLine ''web'' ''Web latency'' \<lparr>count = 1, mttr = 2, downTime = 2\<rparr> \<lparr>count = 0, mttr = 0, downTime = 0\<rparr> (Num 98) (Num 100)], None)"
  by (simp add: alert_stats_script_def mixed_groups mixed_entries)
     (simp add: closed_alert_def group_or_empty_def getAlertStats_def getMTTR_def toFixed0_def
         fl_numeral fl_zero fl_one
         availability_def js_div_def prev_def new_Date_def windowMin_def Math_round_def)

lemma busy_fetch:
  "getAlerts (one_page busy_alerts) 7000000 (prev 0 6000000) = Some (Inr (busy_alerts, [None]))"
  by (rule getAlerts_first_page) (simp_all add: prev_def new_Date_def date_ge_def one_page_def)

lemma busy_groups:
  "windowGroups (prev 0 6000000) (Some 0) (Some 6000000) busy_alerts = ([(''web'', busy_alerts)], [])"
  by (simp add: windowGroups_def busy_alerts_def closed_alert_def Object_groupBy_def prev_def
        new_Date_def date_ge_def date_lt_def propertyKey_def)

lemma busy_entries: "Object_entries [(''web'', xs)] = [(''web'', xs)]"
  by (simp add: Object_entries_def is_array_index_def is_digit_def)

lemma busy_run:
  "alert_stats_script (Some ''key'') (Some 0) (Some 6000000) (one_page busy_alerts)
       (\<lambda>k. Some ''Web latency'') 7000000
   = Some ([PrintTitle (Some 0) (Some 6000000) (Some (- 6000000)), PrintColumns, MonitorGet ''web'',
            PrintLine ''web'' ''Web latency'' \<lparr>count = 3, mttr = 50, downTime = 150\<rparr>
              \<lparr>count = 0, mttr = 0, downTime = 0\<rparr> (Num (- 50)) (Num 100)], None)"
  apply (simp add: alert_stats_script_def getAlertsByMonitor_def busy_fetch busy_groups busy_entries)
  apply (simp add: busy_alerts_def closed_alert_def group_or_empty_def)
  apply (simp add: getAlertStats_def getMTTR_def toFixed0_def fl_numeral fl_zero fl_one
      availability_def js_div_def prev_def new_Date_def windowMin_def Math_round_def)
  done

lemma two_pages_fetch:
  "getAlerts two_pages 1000000 (Some 0) =
     Some (Inr ([closed_alert (Some ''web'') ''host'' 900000 960000,
                 closed_alert (Some ''web'') ''host'' 800000 860000], [None]))"
  by (rule getAlerts_first_page) (simp_all add: date_ge_def two_pages_def)

section \<open>The claims about mackerel-alert-stats.ts\<close>

text \<open>
  C1. The claim: \<open>getAlerts\<close> keeps requesting pages until the oldest alert fetched so far
  was opened at or before the bound, so a first page holding only newer alerts is followed
  by a second request. The code does otherwise. With the clock at 1000 s and the bound at
  the epoch, the first page of \<open>two_pages\<close> holds two alerts opened at 900 s and 800 s, both
  newer than the bound, and a cursor to a second page with an older alert; \<open>getAlerts\<close>
  returns the first page alone after one request, because line 79 leaves the loop when
  \<^verbatim>\<open>currentOpenedAt >= from\<close>, and \<^verbatim>\<open>currentOpenedAt\<close> starts as the current time.
\<close>

theorem getAlerts_stops_after_first_page:
  "two_pages 0 None = ListResolved [closed_alert (Some ''web'') ''host'' 900000 960000,
                                    closed_alert (Some ''web'') ''host'' 800000 860000] (Some ''c1'')
   \<and> list_all (\<lambda>a. 0 < openedAt a) [closed_alert (Some ''web'') ''host'' 900000 960000,
                                      closed_alert (Some ''web'') ''host'' 800000 860000]
   \<and> getAlerts two_pages 1000000 (Some 0) =
       Some (Inr ([closed_alert (Some ''web'') ''host'' 900000 960000,
                   closed_alert (Some ''web'') ''host'' 800000 860000], [None]))"
  by (simp add: two_pages_fetch) (simp add: two_pages_def closed_alert_def)

text \<open>
  C2. The window split of \<open>getAlertsByMonitor\<close> is a disjoint cover: with
  \<open>prev = 2 * from - to\<close>, every fetched alert opened in \<open>[prev, to)\<close> is placed in exactly
  one of the two objects of groups, in the current one when it was opened in \<open>[from, to)\<close>
  and in the previous one when it was opened in \<open>[prev, from)\<close>, and the two windows are
  equally long.
\<close>

theorem window_split_disjoint_cover:
  assumes fetched: "getAlerts api now (prev from to) = Some (Inr (alerts, requests))"
    and p: "prev from to = Some p"
    and a: "a \<in> set alerts" "p \<le> openedAt a" "openedAt a < to"
  shows "\<exists>cur prv.
           getAlertsByMonitor api now (prev from to) (Some from) (Some to) = Some (Inr (cur, prv))
         \<and> (a \<in> set (group_members cur)) \<noteq> (a \<in> set (group_members prv))
         \<and> (a \<in> set (group_members cur)) = (from \<le> openedAt a \<and> openedAt a < to)
         \<and> (a \<in> set (group_members prv)) = (p \<le> openedAt a \<and> openedAt a < from)
         \<and> p = 2 * from - to
         \<and> to - from = from - p"
proof -
  have p_eq: "p = 2 * from - to"
    using p by (simp add: prev_def new_Date_def split: if_splits)
  have run: "getAlertsByMonitor api now (prev from to) (Some from) (Some to) =
      Some (Inr (windowGroups (Some p) (Some from) (Some to) alerts))"
    using fetched p by (simp add: getAlertsByMonitor_def)
  have cur: "(a \<in> set (group_members (fst (windowGroups (Some p) (Some from) (Some to) alerts))))
      = (from \<le> openedAt a \<and> openedAt a < to)"
    using a(1) by (simp add: windowGroups_def Object_groupBy_members date_ge_def date_lt_def)
  have prv: "(a \<in> set (group_members (snd (windowGroups (Some p) (Some from) (Some to) alerts))))
      = (p \<le> openedAt a \<and> openedAt a < from)"
    using a(1) by (simp add: windowGroups_def Object_groupBy_members date_ge_def date_lt_def)
  have "(a \<in> set (group_members (fst (windowGroups (Some p) (Some from) (Some to) alerts))))
      \<noteq> (a \<in> set (group_members (snd (windowGroups (Some p) (Some from) (Some to) alerts))))"
    unfolding cur prv using a(2,3) by auto
  with run cur prv p_eq show ?thesis
    by (cases "windowGroups (Some p) (Some from) (Some to) alerts") auto
qed

theorem window_split_disjoint_cover_witness:
  "getAlerts (one_page mixed_alerts) 7000000 (prev 0 6000000) = Some (Inr (mixed_alerts, [None]))
   \<and> prev 0 6000000 = Some (- 6000000)
   \<and> closed_alert (Some ''web'') ''host'' 1200000 1320000 \<in> set mixed_alerts
   \<and> (\<exists>cur prv.
         getAlertsByMonitor (one_page mixed_alerts) 7000000 (prev 0 6000000) (Some 0) (Some 6000000)
           = Some (Inr (cur, prv))
       \<and> closed_alert (Some ''web'') ''host'' 1200000 1320000 \<in> set (group_members cur)
       \<and> closed_alert (Some ''web'') ''host'' 1200000 1320000 \<notin> set (group_members prv))"
proof -
  have p: "prev 0 6000000 = Some (- 6000000)"
    by (simp add: prev_def new_Date_def)
  have a: "closed_alert (Some ''web'') ''host'' 1200000 1320000 \<in> set mixed_alerts"
    by (simp add: mixed_alerts_def)
  have o: "- 6000000 \<le> openedAt (closed_alert (Some ''web'') ''host'' 1200000 1320000)"
      "openedAt (closed_alert (Some ''web'') ''host'' 1200000 1320000) < 6000000"
    by (simp_all add: closed_alert_def)
  from window_split_disjoint_cover[OF mixed_fetch p a o] obtain cur prv where
    "getAlertsByMonitor (one_page mixed_alerts) 7000000 (prev 0 6000000) (Some 0) (Some 6000000)
           = Some (Inr (cur, prv))"
    "(closed_alert (Some ''web'') ''host'' 1200000 1320000 \<in> set (group_members cur)) =
       (0 \<le> openedAt (closed_alert (Some ''web'') ''host'' 1200000 1320000)
        \<and> openedAt (closed_alert (Some ''web'') ''host'' 1200000 1320000) < 6000000)"
    "(closed_alert (Some ''web'') ''host'' 1200000 1320000 \<in> set (group_members prv)) =
       (- 6000000 \<le> openedAt (closed_alert (Some ''web'') ''host'' 1200000 1320000)
        \<and> openedAt (closed_alert (Some ''web'') ''host'' 1200000 1320000) < 0)"
    by blast
  moreover have "openedAt (closed_alert (Some ''web'') ''host'' 1200000 1320000) = 1200000"
    by (simp add: closed_alert_def)
  ultimately show ?thesis using mixed_fetch p a by auto
qed

text \<open>
  C3, as the claim states it: for every range with \<open>from < to\<close>, zero downtime gives an
  availability of exactly 100. It fails on a window shorter than 30 seconds: from 0 to
  1000 ms \<open>windowMin\<close> rounds to 0, and for a monitor whose alert was closed 200 ms after
  it opened (an MTTR of 0 minutes, so no downtime) line 60 computes \<open>0 / 0\<close>.
\<close>

theorem availability_short_window_counterexample:
  "(0::int) < 1000
   \<and> downTime (getAlertStats 0 [closed_alert (Some ''web'') ''host'' 500 700]) = 0
   \<and> availability (windowMin 0 1000) (getAlertStats 0 [closed_alert (Some ''web'') ''host'' 500 700]) = NaN
   \<and> availability (windowMin 0 1000) (getAlertStats 0 [closed_alert (Some ''web'') ''host'' 500 700]) \<noteq> Num 100"
  by (simp add: getAlertStats_def getMTTR_def closed_alert_def toFixed0_def
      fl_numeral fl_zero fl_one fl_300th fl_300th_idem
      windowMin_def Math_round_def availability_def js_div_def)

text \<open>
  C3, amended: for every time range that is at least 30 seconds long, so that \<open>windowMin\<close>
  is at least 1, a monitor whose statistics have no downtime gets an availability of
  exactly 100.
\<close>

theorem availability_zero_downTime:
  assumes "30000 \<le> to - from" and "downTime stats = 0"
  shows "0 < windowMin from to \<and> availability (windowMin from to) stats = Num 100"
  using windowMin_pos[OF assms(1)] assms(2)
  by (simp add: availability_def js_div_def)

theorem availability_zero_downTime_witness:
  "(30000::int) \<le> 6000000 - 0
   \<and> downTime (getAlertStats 0 []) = 0
   \<and> windowMin 0 6000000 = 100
   \<and> availability (windowMin 0 6000000) (getAlertStats 0 []) = Num 100"
proof -
  have d: "downTime (getAlertStats 0 []) = 0"
    by (simp add: getAlertStats_def getMTTR_def)
  have len: "(30000::int) \<le> 6000000 - 0" by simp
  have wm: "windowMin 0 6000000 = 100"
    by (simp add: windowMin_def Math_round_def)
  from availability_zero_downTime[OF len d] d wm show ?thesis by simp
qed

text \<open>
  C4, as the claim states it: alerts that are all closed \<open>k\<close> minutes after they opened have
  an MTTR of exactly \<open>k\<close>. It fails when \<open>k\<close> is not a whole number: an alert closed 90
  seconds after it opened has \<open>k = 1.5\<close>, and \<^verbatim>\<open>toFixed(0)\<close> rounds the mean to 2.
\<close>

theorem getMTTR_fraction_counterexample:
  "closedAt (closed_alert (Some ''web'') ''host'' 0 90000) =
     Some (openedAt (closed_alert (Some ''web'') ''host'' 0 90000) + 90000)
   \<and> (90000 :: real) = (3 / 2) * 60000
   \<and> getMTTR 0 [closed_alert (Some ''web'') ''host'' 0 90000] = 2
   \<and> real_of_int (getMTTR 0 [closed_alert (Some ''web'') ''host'' 0 90000]) \<noteq> 3 / 2"
  by (simp add: getMTTR_def closed_alert_def toFixed0_def
      fl_numeral fl_zero fl_one fl_three_halves)

text \<open>
  C4, amended: for every non-empty alert list whose dates are valid (time values within
  \<open>\<plusminus>8.64e15\<close>), in which each alert has \<open>closedAt\<close> equal to \<open>openedAt\<close> plus \<open>k\<close> minutes for
  one whole number \<open>k\<close>, and in which the number of alerts times \<open>|k|\<close> is at most \<open>2^53\<close>,
  \<open>getMTTR\<close> returns exactly \<open>k\<close>. Within that bound every double of lines 67-69 is exact;
  beyond it the additions of \<^verbatim>\<open>reduce\<close> round.
\<close>

theorem getMTTR_whole_minutes:
  assumes ne: "alerts \<noteq> []"
    and closed: "\<forall>a\<in>set alerts. closedAt a = Some (openedAt a + k * 60000)"
    and dates: "\<forall>a\<in>set alerts. \<bar>openedAt a\<bar> \<le> 8640000000000000
                  \<and> \<bar>openedAt a + k * 60000\<bar> \<le> 8640000000000000"
    and bound: "int (length alerts) * \<bar>k\<bar> \<le> 2 ^ 53"
  shows "getMTTR now alerts = k"
proof -
  let ?n = "length alerts"
  let ?mins = "\<lambda>a. fl (fl (of_int ((case closedAt a of Some c \<Rightarrow> c | None \<Rightarrow> now) - openedAt a)) / 60000)"
  obtain a0 where a0: "a0 \<in> set alerts" using ne by (cases alerts) auto
  have n1: "1 \<le> int ?n" using ne by (cases alerts) simp_all
  have "1 * \<bar>k\<bar> \<le> int ?n * \<bar>k\<bar>" using n1 by (intro mult_right_mono) simp_all
  with bound have k53: "\<bar>k\<bar> \<le> 2 ^ 53" by simp
  from dates a0 have "\<bar>k * 60000\<bar> \<le> 17280000000000000" by fastforce
  then have "\<bar>k * 1875\<bar> \<le> 2 ^ 53" by simp
  from fl_of_int_shift[OF this, of 5]
  have duration: "fl (of_int (k * 60000)) = of_int (k * 60000)"
    by (simp add: mult.assoc)
  have each: "?mins a = of_int k" if "a \<in> set alerts" for a
  proof -
    have "(case closedAt a of Some c \<Rightarrow> c | None \<Rightarrow> now) - openedAt a = k * 60000"
      using closed that by simp
    then show ?thesis using duration fl_of_int[OF k53] by simp
  qed
  have "foldl (\<lambda>acc cur. fl (acc + cur)) (of_int (int 0 * k)) (map ?mins alerts)
          = of_int ((int 0 + int (length (map ?mins alerts))) * k)"
    using each bound by (intro fl_sum_whole_minutes) simp_all
  then have sum: "foldl (\<lambda>acc cur. fl (acc + cur)) 0 (map ?mins alerts) = of_int (int ?n * k)"
    by simp
  have mean: "fl (of_int (int ?n * k) / fl (of_nat ?n)) = of_int k"
  proof (cases "k = 0")
    case True
    then show ?thesis by (simp add: fl_def)
  next
    case False
    then have "1 \<le> \<bar>k\<bar>" by simp
    then have "int ?n * 1 \<le> int ?n * \<bar>k\<bar>" by (intro mult_left_mono) simp_all
    with bound have "\<bar>int ?n\<bar> \<le> 2 ^ 53" by simp
    from fl_of_int[OF this] have "fl (of_nat ?n) = of_nat ?n" by simp
    moreover have "(of_nat ?n :: real) \<noteq> 0" using ne by simp
    ultimately show ?thesis using fl_of_int[OF k53] by simp
  qed
  have "length alerts \<noteq> 0" using ne by simp
  then have "getMTTR now alerts =
      toFixed0 (fl (foldl (\<lambda>acc cur. fl (acc + cur)) 0 (map ?mins alerts) / fl (of_nat ?n)))"
    unfolding getMTTR_def by (rule if_not_P)
  also have "\<dots> = toFixed0 (fl (of_int (int ?n * k) / fl (of_nat ?n)))"
    by (simp only: sum)
  also have "\<dots> = toFixed0 (of_int k)"
    by (simp only: mean)
  also have "\<dots> = k"
    by (rule toFixed0_of_int)
  finally show ?thesis .
qed

theorem getMTTR_whole_minutes_witness:
  "busy_alerts \<noteq> []
   \<and> list_all (\<lambda>a. closedAt a = Some (openedAt a + 50 * 60000)) busy_alerts
   \<and> list_all (\<lambda>a. \<bar>openedAt a\<bar> \<le> 8640000000000000
                     \<and> \<bar>openedAt a + 50 * 60000\<bar> \<le> 8640000000000000) busy_alerts
   \<and> int (length busy_alerts) * \<bar>50\<bar> \<le> 2 ^ 53
   \<and> getMTTR 0 busy_alerts = 50"
proof -
  have ne: "busy_alerts \<noteq> []" by (simp add: busy_alerts_def)
  have closed: "\<forall>a\<in>set busy_alerts. closedAt a = Some (openedAt a + 50 * 60000)"
    by (simp add: busy_alerts_def closed_alert_def)
  have dates: "\<forall>a\<in>set busy_alerts. \<bar>openedAt a\<bar> \<le> 8640000000000000
                  \<and> \<bar>openedAt a + 50 * 60000\<bar> \<le> 8640000000000000"
    by (simp add: busy_alerts_def closed_alert_def)
  have bound: "int (length busy_alerts) * \<bar>50\<bar> \<le> 2 ^ 53"
    by (simp add: busy_alerts_def)
  from getMTTR_whole_minutes[OF ne closed dates bound, of 0] ne closed dates bound
  show ?thesis
    by (simp add: list_all_iff)
qed

text \<open>
  C5. In the report loop every group whose alerts have the type \<^verbatim>\<open>"check"\<close>, and every group
  whose alerts have no monitor id (the monitor was deleted), is skipped: the script neither
  requests the monitor's name nor prints a line for the group.
\<close>

theorem report_skips_check_and_deleted:
  assumes run: "alert_stats_script apiKey (Some from) (Some to) api get now = Some (evs, r)"
    and groups: "getAlertsByMonitor api now (prev from to) (Some from) (Some to) = Some (Inr (cur, prv))"
    and grp: "(k, as) \<in> set cur"
    and skip: "list_all (\<lambda>a. alert_type a = ''check'') as \<or> list_all (\<lambda>a. monitorId a = None) as"
  shows "MonitorGet k \<notin> set evs
         \<and> (\<forall>name cs ps av pav. PrintLine k name cs ps av pav \<notin> set evs)"
proof -
  from getAlertsByMonitor_groups[OF groups] obtain alerts requests where
    w: "(cur, prv) = windowGroups (prev from to) (Some from) (Some to) alerts" by blast
  then obtain xs where cur: "cur = Object_groupBy xs (\<lambda>a. propertyKey (monitorId a))"
    by (auto simp add: windowGroups_def)
  have no_key: "event_key e \<noteq> Some k" if "e \<in> set evs" for e
  proof -
    from script_events[OF run groups] that
    consider "e = PrintTitle (Some from) (Some to) (prev from to)" | "e = PrintColumns"
      | "e \<in> set (fst (report_loop get now (windowMin from to) prv (Object_entries cur)))"
      by auto
    then show ?thesis
    proof cases
      case 3
      then show ?thesis using report_loop_groupBy_skips[OF grp[unfolded cur] skip] by (simp add: cur)
    qed simp_all
  qed
  show ?thesis using no_key by fastforce
qed

theorem report_skips_check_and_deleted_witness:
  "alert_stats_script (Some ''key'') (Some 0) (Some 6000000) (one_page mixed_alerts) (\<lambda>k. Some ''Web latency'') 7000000
   = Some ([PrintTitle (Some 0) (Some 6000000) (Some (- 6000000)), PrintColumns, MonitorGet ''web'',
            PrintLine ''web'' ''Web latency'' \<lparr>count = 1, mttr = 2, downTime = 2\<rparr> \<lparr>count = 0, mttr = 0, downTime = 0\<rparr> (Num 98) (Num 100)], None)
   \<and> list_all (\<lambda>a. alert_type a = ''check'') [closed_alert (Some ''chk'') ''check'' 600000 660000]
   \<and> MonitorGet ''chk'' \<notin> set [PrintTitle (Some 0) (Some 6000000) (Some (- 6000000)), PrintColumns, MonitorGet ''web'',
            PrintLine ''web'' ''Web latency'' \<lparr>count = 1, mttr = 2, downTime = 2\<rparr> \<lparr>count = 0, mttr = 0, downTime = 0\<rparr> (Num 98) (Num 100)]"
proof -
  have skip: "list_all (\<lambda>a. alert_type a = ''check'') [closed_alert (Some ''chk'') ''check'' 600000 660000]
      \<or> list_all (\<lambda>a. monitorId a = None) [closed_alert (Some ''chk'') ''check'' 600000 660000]"
    by (simp add: closed_alert_def)
  have grp: "(''chk'', [closed_alert (Some ''chk'') ''check'' 600000 660000]) \<in>
     set [(''chk'', [closed_alert (Some ''chk'') ''check'' 600000 660000]),
                 (''null'', [closed_alert None ''host'' 700000 760000]),
                 (''web'', [closed_alert (Some ''web'') ''host'' 1200000 1320000])]" by simp
  from report_skips_check_and_deleted[OF mixed_run mixed_groups grp skip] mixed_run
  show ?thesis by (simp add: closed_alert_def)
qed

text \<open>
  C10. The availability is not clamped to \<open>[0, 100]\<close>: there is a run of the script in
  which the downtime of a monitor, \<open>count * mttr\<close>, exceeds the minutes of the window and
  the availability of the printed line is negative. (Three alerts of 50 minutes each in a
  window of 100 minutes give \<open>-50\<close>.)
\<close>

theorem availability_not_clamped:
  "\<exists>apiKey from to api get now evs k name cs ps r pav.
      from < to
    \<and> alert_stats_script apiKey (Some from) (Some to) api get now = Some (evs, None)
    \<and> PrintLine k name cs ps (Num r) pav \<in> set evs
    \<and> downTime cs = int (count cs) * mttr cs
    \<and> windowMin from to < downTime cs
    \<and> r < 0"
proof -
  have "(0::int) < 6000000
    \<and> alert_stats_script (Some ''key'') (Some 0) (Some 6000000) (one_page busy_alerts) (\<lambda>k. Some ''Web latency'') 7000000
        = Some ([PrintTitle (Some 0) (Some 6000000) (Some (- 6000000)), PrintColumns, MonitorGet ''web'',
            PrintLine ''web'' ''Web latency'' \<lparr>count = 3, mttr = 50, downTime = 150\<rparr>
              \<lparr>count = 0, mttr = 0, downTime = 0\<rparr> (Num (- 50)) (Num 100)], None)
    \<and> PrintLine ''web'' ''Web latency'' \<lparr>count = 3, mttr = 50, downTime = 150\<rparr>
              \<lparr>count = 0, mttr = 0, downTime = 0\<rparr> (Num (- 50)) (Num 100)
        \<in> set [PrintTitle (Some 0) (Some 6000000) (Some (- 6000000)), PrintColumns, MonitorGet ''web'',
            PrintLine ''web'' ''Web latency'' \<lparr>count = 3, mttr = 50, downTime = 150\<rparr>
              \<lparr>count = 0, mttr = 0, downTime = 0\<rparr> (Num (- 50)) (Num 100)]
    \<and> downTime \<lparr>count = 3, mttr = 50, downTime = 150\<rparr> = int (count \<lparr>count = 3, mttr = 50, downTime = 150\<rparr>) * mttr \<lparr>count = 3, mttr = 50, downTime = 150\<rparr>
    \<and> windowMin 0 6000000 < downTime \<lparr>count = 3, mttr = 50, downTime = 150\<rparr>
    \<and> (- 50 :: real) < 0"
    by (simp add: busy_run) (simp add: windowMin_def Math_round_def)
  then show ?thesis by blast
qed

section \<open>Facts about list_monitors.ts\<close>

lemma trim_svcA: "trim ''svcA'' = ''svcA''"
  by (simp add: trim_def is_space_def)

lemma trim_svcB: "trim ''svcB'' = ''svcB''"
  by (simp add: trim_def is_space_def)

lemma svcA_role_part: "servicePart_satisfies test ''svcA:role'' = test ''svcA''"
  by (simp add: servicePart_satisfies_def)

lemma excludes_service_guard:
  "(case excludeScopes0 monitor of
      None \<Rightarrow> False
    | Some exc \<Rightarrow> 0 < length exc \<and> list_ex (servicePart_satisfies (\<lambda>servicePart. servicePart = service)) exc)
   = excludes_service monitor service"
  by (cases "excludeScopes0 monitor") (auto simp add: excludes_service_def list_ex_iff)

section \<open>The claims about list_monitors.ts\<close>

text \<open>
  C6, as the claim states it: every monitor that is not matched by name and whose scopes
  are \<^verbatim>\<open>["svcA:role"]\<close> is kept by the filter \<^verbatim>\<open>"svcA"\<close>. In the variant of
  src/unnamed/part_000 it fails for a monitor whose \<^verbatim>\<open>excludeScopes\<close> names the service:
  lines 56-64 drop it before the scopes are looked at.
\<close>

theorem scope_filter_excludeScopes_counterexample:
  "\<not> name_matched (type0 \<lparr>id0 = ''1'', type0 = ''host'', name0 = ''cpu'', scopes0 = Some [''svcA:role''], excludeScopes0 = Some [''svcA:db'']\<rparr>)
   \<and> scopes0 \<lparr>id0 = ''1'', type0 = ''host'', name0 = ''cpu'', scopes0 = Some [''svcA:role''], excludeScopes0 = Some [''svcA:db'']\<rparr> = Some [''svcA:role'']
   \<and> filterByService0 [\<lparr>id0 = ''1'', type0 = ''host'', name0 = ''cpu'', scopes0 = Some [''svcA:role''], excludeScopes0 = Some [''svcA:db'']\<rparr>] ''svcA'' False = []"
  by (simp add: filterByService0_def name_matched_def servicePart_satisfies_def)

text \<open>
  C6, amended: a monitor that is not matched by name and whose scopes are
  \<^verbatim>\<open>["svcA:role"]\<close> is dropped by the filter \<^verbatim>\<open>"svcB"\<close> in both files, whatever
  \<open>excludeAllServices\<close> is; the filter \<^verbatim>\<open>"svcA"\<close> keeps it in src/mackerel/list_monitors.ts,
  and in src/unnamed/part_000 keeps it unless a scope of its \<^verbatim>\<open>excludeScopes\<close> names \<^verbatim>\<open>svcA\<close>.
\<close>

theorem scope_filter_svcA_svcB:
  assumes "\<not> name_matched (monitor_type m)" and "scopes m = ScopesArray [''svcA:role'']"
    and "\<not> name_matched (type0 m0)" and "scopes0 m0 = Some [''svcA:role'']"
  shows "(m \<in> set (filterByService ms ''svcA'' excludeAllServices)) = (m \<in> set ms)
       \<and> m \<notin> set (filterByService ms ''svcB'' excludeAllServices)
       \<and> (m0 \<in> set (filterByService0 ms0 ''svcA'' excludeAllServices))
           = (m0 \<in> set ms0 \<and> \<not> excludes_service m0 ''svcA'')
       \<and> m0 \<notin> set (filterByService0 ms0 ''svcB'' excludeAllServices)"
proof -
  have a: "(m \<in> set (filterByService ms ''svcA'' excludeAllServices)) = (m \<in> set ms)"
    using assms(1,2) by (simp add: filterByService_def trim_svcA svcA_role_part)
  have b: "m \<notin> set (filterByService ms ''svcB'' excludeAllServices)"
    using assms(1,2) by (simp add: filterByService_def trim_svcB svcA_role_part)
  have c: "(m0 \<in> set (filterByService0 ms0 ''svcA'' excludeAllServices))
           = (m0 \<in> set ms0 \<and> \<not> excludes_service m0 ''svcA'')"
    using assms(3,4) by (simp add: filterByService0_def excludes_service_guard svcA_role_part)
  have d: "m0 \<notin> set (filterByService0 ms0 ''svcB'' excludeAllServices)"
    using assms(3,4) by (simp add: filterByService0_def excludes_service_guard svcA_role_part)
  from a b c d show ?thesis by simp
qed

theorem scope_filter_svcA_svcB_witness:
  "\<not> name_matched (monitor_type role_monitor)
   \<and> scopes role_monitor = ScopesArray [''svcA:role'']
   \<and> \<not> name_matched (type0 role_Monitor)
   \<and> scopes0 role_Monitor = Some [''svcA:role'']
   \<and> role_monitor \<in> set (filterByService [role_monitor] ''svcA'' True)
   \<and> role_monitor \<notin> set (filterByService [role_monitor] ''svcB'' True)
   \<and> role_Monitor \<in> set (filterByService0 [role_Monitor] ''svcA'' True)
   \<and> role_Monitor \<notin> set (filterByService0 [role_Monitor] ''svcB'' True)"
proof -
  have h: "\<not> name_matched (monitor_type role_monitor)"
      "scopes role_monitor = ScopesArray [''svcA:role'']"
      "\<not> name_matched (type0 role_Monitor)"
      "scopes0 role_Monitor = Some [''svcA:role'']"
    by (simp_all add: role_monitor_def role_Monitor_def name_matched_def)
  have e: "\<not> excludes_service role_Monitor ''svcA''"
    by (simp add: excludes_service_def role_Monitor_def)
  from scope_filter_svcA_svcB[OF h, of "[role_monitor]" True "[role_Monitor]"] h e
  show ?thesis by simp
qed

text \<open>
  C7, as the claim states it: with \<open>excludeAllServices\<close> false, a monitor without scopes
  is kept. In the variant of src/unnamed/part_000 it fails for a monitor whose
  \<^verbatim>\<open>excludeScopes\<close> names the service of the filter.
\<close>

theorem empty_scopes_excludeScopes_counterexample:
  "\<not> name_matched (type0 \<lparr>id0 = ''2'', type0 = ''host'', name0 = ''disk'', scopes0 = None, excludeScopes0 = Some [''svcA:db'']\<rparr>)
   \<and> scopes0 \<lparr>id0 = ''2'', type0 = ''host'', name0 = ''disk'', scopes0 = None, excludeScopes0 = Some [''svcA:db'']\<rparr> = None
   \<and> filterByService0 [\<lparr>id0 = ''2'', type0 = ''host'', name0 = ''disk'', scopes0 = None, excludeScopes0 = Some [''svcA:db'']\<rparr>] ''svcA'' False = []"
  by (simp add: filterByService0_def name_matched_def servicePart_satisfies_def)

text \<open>
  C7, amended: for a monitor that is not matched by name and whose \<^verbatim>\<open>scopes\<close> is absent
  or an empty list, \<open>filterByService\<close> drops it when \<open>excludeAllServices\<close> is true, in both
  files; when it is false, src/mackerel/list_monitors.ts keeps it, and src/unnamed/part_000
  keeps it unless a scope of its \<^verbatim>\<open>excludeScopes\<close> names the service of the filter.
\<close>

theorem empty_scopes_filter:
  assumes "\<not> name_matched (monitor_type m)" and "scopes m = ScopesAbsent \<or> scopes m = ScopesArray []"
    and "\<not> name_matched (type0 m0)" and "scopes0 m0 = None \<or> scopes0 m0 = Some []"
  shows "m \<notin> set (filterByService ms service True)
       \<and> (m \<in> set (filterByService ms service False)) = (m \<in> set ms)
       \<and> m0 \<notin> set (filterByService0 ms0 service True)
       \<and> (m0 \<in> set (filterByService0 ms0 service False))
           = (m0 \<in> set ms0 \<and> \<not> excludes_service m0 service)"
proof -
  have a: "m \<notin> set (filterByService ms service True)"
    using assms(1,2) by (auto simp add: filterByService_def Let_def)
  have b: "(m \<in> set (filterByService ms service False)) = (m \<in> set ms)"
    using assms(1,2) by (auto simp add: filterByService_def Let_def)
  have c: "m0 \<notin> set (filterByService0 ms0 service True)"
    using assms(3,4) by (auto simp add: filterByService0_def excludes_service_guard)
  have d: "(m0 \<in> set (filterByService0 ms0 service False))
           = (m0 \<in> set ms0 \<and> \<not> excludes_service m0 service)"
    using assms(3,4) by (auto simp add: filterByService0_def excludes_service_guard)
  from a b c d show ?thesis by simp
qed

theorem empty_scopes_filter_witness:
  "\<not> name_matched (monitor_type unscoped_monitor)
   \<and> scopes unscoped_monitor = ScopesAbsent
   \<and> \<not> name_matched (type0 unscoped_Monitor)
   \<and> scopes0 unscoped_Monitor = None
   \<and> unscoped_monitor \<notin> set (filterByService [unscoped_monitor] ''svcA'' True)
   \<and> unscoped_monitor \<in> set (filterByService [unscoped_monitor] ''svcA'' False)
   \<and> unscoped_Monitor \<notin> set (filterByService0 [unscoped_Monitor] ''svcA'' True)
   \<and> unscoped_Monitor \<in> set (filterByService0 [unscoped_Monitor] ''svcA'' False)"
proof -
  have h: "\<not> name_matched (monitor_type unscoped_monitor)"
      "scopes unscoped_monitor = ScopesAbsent \<or> scopes unscoped_monitor = ScopesArray []"
      "\<not> name_matched (type0 unscoped_Monitor)"
      "scopes0 unscoped_Monitor = None \<or> scopes0 unscoped_Monitor = Some []"
    by (simp_all add: unscoped_monitor_def unscoped_Monitor_def name_matched_def)
  have e: "\<not> excludes_service unscoped_Monitor ''svcA''"
    by (simp add: excludes_service_def unscoped_Monitor_def)
  have s: "scopes unscoped_monitor = ScopesAbsent" "scopes0 unscoped_Monitor = None"
    by (simp_all add: unscoped_monitor_def unscoped_Monitor_def)
  from empty_scopes_filter[OF h, of "[unscoped_monitor]" "''svcA''" "[unscoped_Monitor]"] h(1,3) s e
  show ?thesis by simp
qed

section \<open>Facts about make_team_maintainer.ts\<close>

subsection \<open>The loop of setMaintainer\<close>

lemma requests_of_append: "requests_of (xs @ ys) = requests_of xs @ requests_of ys"
  by (induction xs rule: requests_of.induct) simp_all

lemma setMaintainer_loop_append:
  "setMaintainer_loop slugOf put org username i (xs @ ys) =
     setMaintainer_loop slugOf put org username i xs
     @ setMaintainer_loop slugOf put org username (i + length xs) ys"
  by (induction xs arbitrary: i) (simp_all add: Let_def)

lemma setMaintainer_loop_error:
  "put i = Response status body json \<Longrightarrow> \<not> ok status \<Longrightarrow>
     setMaintainer_loop slugOf put org username i (team # teams) =
       [Log (ProcessingTeam (slugOf team)), Fetch (PutMembership org (slugOf team) username)]
       @ (case body of
            None \<Rightarrow> [LogError (ErrorProcessingTeam (slugOf team))]
          | Some errorText \<Rightarrow> [LogError (TeamApiReturned status), LogError (ErrorBody errorText)])
       @ setMaintainer_loop slugOf put org username (Suc i) teams"
  by (simp add: Let_def)

lemma setMaintainer_loop_requests:
  "requests_of (setMaintainer_loop slugOf put org username i teams) =
     map (\<lambda>team. PutMembership org (slugOf team) username) teams"
proof (induction teams arbitrary: i)
  case Nil
  show ?case by simp
next
  case (Cons team teams)
  have "requests_of (case put i of
              Rejected \<Rightarrow> [LogError (ErrorProcessingTeam (slugOf team))]
            | Response status body json \<Rightarrow>
                if \<not> ok status
                then (case body of
                        None \<Rightarrow> [LogError (ErrorProcessingTeam (slugOf team))]
                      | Some errorText \<Rightarrow>
                          [LogError (TeamApiReturned status), LogError (ErrorBody errorText)])
                else (case json of
                        None \<Rightarrow> [LogError (ErrorProcessingTeam (slugOf team))]
                      | Some role \<Rightarrow> [Log (Success username role (slugOf team))])) = []"
    by (simp split: response.splits option.splits)
  then show ?case using Cons.IH by (simp add: Let_def requests_of_append)
qed

lemma setMaintainer_loop_no_exit: "Exit c \<notin> set (setMaintainer_loop slugOf put org username i teams)"
  by (induction teams arbitrary: i) (auto simp add: Let_def split: response.splits option.splits if_splits)

lemma setMaintainer_by_continues:
  assumes "put (length ts1) = Response status body json" and "\<not> ok status"
  shows "setMaintainer_by slugOf put org username (ts1 @ team # ts2) =
           Log (SettingMaintainer username (length (ts1 @ team # ts2)) org)
           # setMaintainer_loop slugOf put org username 0 ts1
           @ [Log (ProcessingTeam (slugOf team)), Fetch (PutMembership org (slugOf team) username)]
           @ (case body of
                None \<Rightarrow> [LogError (ErrorProcessingTeam (slugOf team))]
              | Some errorText \<Rightarrow>
                  [LogError (TeamApiReturned status), LogError (ErrorBody errorText)])
           @ setMaintainer_loop slugOf put org username (Suc (length ts1)) ts2
           @ [Log Done]"
proof -
  have "setMaintainer_loop slugOf put org username (0 + length ts1) (team # ts2) =
       [Log (ProcessingTeam (slugOf team)), Fetch (PutMembership org (slugOf team) username)]
       @ (case body of
            None \<Rightarrow> [LogError (ErrorProcessingTeam (slugOf team))]
          | Some errorText \<Rightarrow> [LogError (TeamApiReturned status), LogError (ErrorBody errorText)])
       @ setMaintainer_loop slugOf put org username (Suc (length ts1)) ts2"
    using assms by (intro setMaintainer_loop_error[where body = body and json = json, THEN trans]) simp_all
  then show ?thesis
    by (simp add: setMaintainer_by_def setMaintainer_loop_append del: setMaintainer_loop.simps)
qed

lemma setMaintainer_by_requests:
  "requests_of (setMaintainer_by slugOf put org username teams) =
     map (\<lambda>team. PutMembership org (slugOf team) username) teams"
  by (simp add: setMaintainer_by_def requests_of_append setMaintainer_loop_requests)

lemma setMaintainer_by_no_exit: "Exit c \<notin> set (setMaintainer_by slugOf put org username teams)"
  by (simp add: setMaintainer_by_def setMaintainer_loop_no_exit)

subsection \<open>What the fetching functions leave in the trace\<close>

lemma getTeams_quiet: "quiet (fst (getTeams get org user))"
  by (simp add: getTeams_def split: response.splits option.splits)

lemma executeGraphQL_quiet:
  "http_method_of req \<noteq> PUT \<Longrightarrow> quiet (fst (executeGraphQL req answer))"
  by (simp add: executeGraphQL_def split: response.splits option.splits graphql_body.splits)

lemma getAdditionalMembers_loop_quiet:
  "quiet (fst (getAdditionalMembers_loop fuel members_api org teamSlug hasNext mem currentCursor n))"
proof (induction fuel arbitrary: hasNext mem currentCursor n)
  case 0
  show ?case by (cases hasNext) simp_all
next
  case (Suc fuel)
  show ?case
  proof (cases hasNext)
    case False
    then show ?thesis by simp
  next
    case True
    obtain evs r where q: "executeGraphQL (PostMembersQuery org teamSlug currentCursor) (members_api n) = (evs, r)"
      by (cases "executeGraphQL (PostMembersQuery org teamSlug currentCursor) (members_api n)")
    have evs: "quiet evs"
      using executeGraphQL_quiet[of "PostMembersQuery org teamSlug currentCursor" "members_api n"] q
      by simp
    show ?thesis
    proof (cases r)
      case (Returned teamMembers)
      show ?thesis
      proof (cases teamMembers)
        case None
        with True q Returned evs show ?thesis by simp
      next
        case (Some conn)
        with True q Returned evs Suc.IH show ?thesis
          by (simp add: case_prod_beta)
      qed
    qed (use True q evs in simp_all)
  qed
qed

lemma getAdditionalMembers_quiet:
  "quiet (fst (getAdditionalMembers fuel members_api org teamSlug cursor n))"
  by (simp add: getAdditionalMembers_def getAdditionalMembers_loop_quiet)

lemma teams_of_page_quiet: "quiet (fst (teams_of_page fuel members_api org nodes teams n))"
proof (induction nodes arbitrary: teams n)
  case Nil
  show ?case by simp
next
  case (Cons node nodes)
  let ?info = "members_pageInfo (node_members node)"
  show ?case
  proof (cases "hasNextPage ?info \<and> \<not> falsy (endCursor ?info)")
    case False
    then show ?thesis using Cons.IH by (auto simp add: Let_def)
  next
    case True
    obtain evs r where q: "getAdditionalMembers fuel members_api org (node_slug node)
                   (case endCursor ?info of Some c \<Rightarrow> c | None \<Rightarrow> []) n = (evs, r)"
      by (cases "getAdditionalMembers fuel members_api org (node_slug node)
                   (case endCursor ?info of Some c \<Rightarrow> c | None \<Rightarrow> []) n")
    have evs: "quiet evs"
      using getAdditionalMembers_quiet[of fuel members_api org "node_slug node"
          "case endCursor ?info of Some c \<Rightarrow> c | None \<Rightarrow> []" n] q by simp
    show ?thesis
    proof (cases r)
      case (Returned res)
      obtain additionalMembers n' where res: "res = (additionalMembers, n')" by (cases res)
      show ?thesis using True q Returned res evs Cons.IH
        by (simp add: Let_def case_prod_beta)
    qed (use True q evs in \<open>simp_all add: Let_def\<close>)
  qed
qed

lemma getAllTeamsWithMembers_loop_quiet:
  "quiet (fst (getAllTeamsWithMembers_loop fuel teams_api members_api org hasNext teams cursor k n))"
proof (induction fuel arbitrary: hasNext teams cursor k n)
  case 0
  show ?case by (cases hasNext) simp_all
next
  case (Suc fuel)
  show ?case
  proof (cases hasNext)
    case False
    then show ?thesis by simp
  next
    case True
    obtain evs r where q: "executeGraphQL (PostTeamsQuery org cursor) (teams_api k) = (evs, r)"
      by (cases "executeGraphQL (PostTeamsQuery org cursor) (teams_api k)")
    have evs: "quiet evs"
      using executeGraphQL_quiet[of "PostTeamsQuery org cursor" "teams_api k"] q by simp
    show ?thesis
    proof (cases r)
      case (Returned teamsData)
      obtain evs' r' where p: "teams_of_page fuel members_api org (teams_nodes teamsData) teams n = (evs', r')"
        by (cases "teams_of_page fuel members_api org (teams_nodes teamsData) teams n")
      have evs': "quiet evs'"
        using teams_of_page_quiet[of fuel members_api org "teams_nodes teamsData" teams n] p by simp
      show ?thesis
      proof (cases r')
        case inner: (Returned res)
        obtain teams' n' where res: "res = (teams', n')" by (cases res)
        show ?thesis using True q Returned p inner res evs evs' Suc.IH
          by (simp add: Let_def case_prod_beta)
      qed (use True q Returned p evs evs' in simp_all)
    qed (use True q evs in simp_all)
  qed
qed

lemma getAllTeamsWithMembers_quiet:
  "quiet (fst (getAllTeamsWithMembers fuel teams_api members_api org))"
  by (simp add: getAllTeamsWithMembers_def getAllTeamsWithMembers_loop_quiet)

lemma filterTeamsByUser_quiet: "quiet (fst (filterTeamsByUser teams username))"
  by (simp add: filterTeamsByUser_def Let_def list_all_iff)

lemma main_dry_run_quiet:
  assumes "arg args 0 = Some ''--dry-run''"
  shows "quiet (main args token get put)"
proof (cases "falsy (arg args 1) \<or> falsy (arg args 2) \<or> falsy token")
  case True
  with assms show ?thesis
    by (cases "falsy (arg args 1) \<or> falsy (arg args 2)") (simp_all add: main_def Let_def)
next
  case False
  then obtain org username where a: "arg args 1 = Some org" "arg args 2 = Some username"
    by (auto simp add: falsy_def split: option.splits)
  obtain evs r where q: "getTeams get org username = (evs, r)"
    by (cases "getTeams get org username")
  have evs: "quiet evs" using getTeams_quiet[of get org username] q by simp
  show ?thesis using assms False a q evs
    by (cases r) (auto simp add: main_def list_all_iff)
qed

lemma main_graphql_dry_run_quiet:
  assumes "arg args 0 = Some ''--dry-run''"
  shows "quiet (main_graphql fuel args token teams_api members_api put)"
proof (cases "falsy (arg args 1) \<or> falsy (arg args 2) \<or> falsy token")
  case True
  with assms show ?thesis
    by (cases "falsy (arg args 1) \<or> falsy (arg args 2)") (simp_all add: main_graphql_def Let_def)
next
  case False
  then obtain org username where a: "arg args 1 = Some org" "arg args 2 = Some username"
    by (auto simp add: falsy_def split: option.splits)
  obtain evs r where q: "getAllTeamsWithMembers fuel teams_api members_api org = (evs, r)"
    by (cases "getAllTeamsWithMembers fuel teams_api members_api org")
  have evs: "quiet evs"
    using getAllTeamsWithMembers_quiet[of fuel teams_api members_api org] q by simp
  show ?thesis
  proof (cases r)
    case (Returned allTeams)
    obtain evs' teamsWithUser where f: "filterTeamsByUser allTeams username = (evs', teamsWithUser)"
      by (cases "filterTeamsByUser allTeams username")
    have evs': "quiet evs'" using filterTeamsByUser_quiet[of allTeams username] f by simp
    show ?thesis using assms False a q Returned f evs evs'
      by (auto simp add: main_graphql_def list_all_iff)
  qed (use assms False a q evs in \<open>simp_all add: main_graphql_def\<close>)
qed

subsection \<open>Sample runs\<close>

lemma main_dry_run_sample:
  "main [''--dry-run'', ''acme'', ''alice''] (Some ''token'') (Response 200 None (Some [team_a, team_b]))
     first_put_fails =
   [Log (FetchingTeams ''alice'' ''acme''), Fetch (GetTeams ''acme'' ''alice''), Log (FoundTeams 2),
    Log DryRunNamesHeader, Log (TeamLine ''Team A''), Log (TeamLine ''Team B'')]"
  by (simp add: main_def arg_def falsy_def getTeams_def ok_def team_a_def team_b_def)

lemma main_graphql_dry_run_sample:
  "main_graphql 2 [''--dry-run'', ''acme'', ''alice''] (Some ''token'') one_team_page no_members_page
     first_put_fails =
   [Log (FetchingAllTeams ''acme''), Fetch (PostTeamsQuery ''acme'' None), Log (FetchedSoFar 1),
    Log (FoundTeamsInTotal 1), Log (FilteringTeams ''alice''), Log (FoundIn ''Team A'' ''team-a''),
    Log ResultsHeader, Log (MemberOfTeams ''alice'' 1), Log DryRunSlugsHeader,
    Log (TeamLine ''team-a'')]"
  by (simp add: main_graphql_def arg_def falsy_def getAllTeamsWithMembers_def numeral_2_eq_2
      one_team_page_def executeGraphQL_def ok_def filterTeamsByUser_def)

lemma main_sample:
  "main [''acme'', ''alice''] (Some ''token'') (Response 200 None (Some [team_a, team_b]))
     first_put_fails =
   [Log (FetchingTeams ''alice'' ''acme''), Fetch (GetTeams ''acme'' ''alice''), Log (FoundTeams 2),
    Log (TeamsJson [team_a, team_b]),
    Log (SettingMaintainer ''alice'' 2 ''acme''),
    Log (ProcessingTeam ''Team A''), Fetch (PutMembership ''acme'' ''Team A'' ''alice''),
    LogError (TeamApiReturned 404), LogError (ErrorBody ''Not Found''),
    Log (ProcessingTeam ''Team B''), Fetch (PutMembership ''acme'' ''Team B'' ''alice''),
    Log (Success ''alice'' ''maintainer'' ''Team B''),
    Log Done]"
  by (simp add: main_def arg_def falsy_def getTeams_def ok_def setMaintainer_def
      setMaintainer_by_def first_put_fails_def)
     (simp add: team_a_def team_b_def Let_def)

section \<open>The claims about make_team_maintainer.ts\<close>

text \<open>
  C8, as the claim states it: in the loop of \<open>setMaintainer\<close> an answer with a status outside
  200-299 is logged with its status and its body. It fails when the body cannot be read:
  \<^verbatim>\<open>response.text()\<close> is awaited before the status is printed, so when it rejects the
  \<^verbatim>\<open>catch\<close> prints its own line for the team and neither the status nor a body.
\<close>

theorem setMaintainer_unreadable_body_counterexample:
  "\<not> ok 500
   \<and> setMaintainer (\<lambda>i. Response 500 None None) ''acme'' ''alice'' [team_a] =
       [Log (SettingMaintainer ''alice'' 1 ''acme''),
        Log (ProcessingTeam ''Team A''), Fetch (PutMembership ''acme'' ''Team A'' ''alice''),
        LogError (ErrorProcessingTeam ''Team A''),
        Log Done]
   \<and> LogError (TeamApiReturned 500)
       \<notin> set (setMaintainer (\<lambda>i. Response 500 None None) ''acme'' ''alice'' [team_a])
   \<and> setMaintainer_graphql (\<lambda>i. Response 500 None None) ''acme'' ''alice'' [team_a] =
       [Log (SettingMaintainer ''alice'' 1 ''acme''),
        Log (ProcessingTeam ''team-a''), Fetch (PutMembership ''acme'' ''team-a'' ''alice''),
        LogError (ErrorProcessingTeam ''team-a''),
        Log Done]"
  by (simp add: ok_def setMaintainer_def setMaintainer_graphql_def setMaintainer_by_def
      team_a_def Let_def)

text \<open>
  C8, amended: in the loop of \<open>setMaintainer\<close>, in both files, an answer to the update of one
  team with a status outside 200-299 is logged with its status and its body when the body
  can be read, and with the line of the \<^verbatim>\<open>catch\<close> for that team when it cannot; either way
  the loop goes on: the trace carries on with the teams that remain, each of them gets its
  \<^verbatim>\<open>PUT\<close>, the function returns after its last line, and the trace has no exit of the
  process.
\<close>

theorem setMaintainer_continues_after_error:
  assumes "put (length ts1) = Response status body json" and "\<not> ok status"
  shows "setMaintainer put org username (ts1 @ team # ts2) =
           Log (SettingMaintainer username (length (ts1 @ team # ts2)) org)
           # setMaintainer_loop team_name put org username 0 ts1
           @ [Log (ProcessingTeam (team_name team)), Fetch (PutMembership org (team_name team) username)]
           @ (case body of
                None \<Rightarrow> [LogError (ErrorProcessingTeam (team_name team))]
              | Some errorText \<Rightarrow>
                  [LogError (TeamApiReturned status), LogError (ErrorBody errorText)])
           @ setMaintainer_loop team_name put org username (Suc (length ts1)) ts2
           @ [Log Done]
       \<and> requests_of (setMaintainer_loop team_name put org username (Suc (length ts1)) ts2) =
           map (\<lambda>t. PutMembership org (team_name t) username) ts2
       \<and> (\<forall>c. Exit c \<notin> set (setMaintainer put org username (ts1 @ team # ts2)))
       \<and> setMaintainer_graphql put org username (ts1 @ team # ts2) =
           Log (SettingMaintainer username (length (ts1 @ team # ts2)) org)
           # setMaintainer_loop team_slug put org username 0 ts1
           @ [Log (ProcessingTeam (team_slug team)), Fetch (PutMembership org (team_slug team) username)]
           @ (case body of
                None \<Rightarrow> [LogError (ErrorProcessingTeam (team_slug team))]
              | Some errorText \<Rightarrow>
                  [LogError (TeamApiReturned status), LogError (ErrorBody errorText)])
           @ setMaintainer_loop team_slug put org username (Suc (length ts1)) ts2
           @ [Log Done]
       \<and> requests_of (setMaintainer_loop team_slug put org username (Suc (length ts1)) ts2) =
           map (\<lambda>t. PutMembership org (team_slug t) username) ts2
       \<and> (\<forall>c. Exit c \<notin> set (setMaintainer_graphql put org username (ts1 @ team # ts2)))"
proof -
  note step = setMaintainer_by_continues[where put = put and ?ts1.0 = ts1, OF assms]
  show ?thesis
    unfolding setMaintainer_def setMaintainer_graphql_def
    by (intro conjI allI step setMaintainer_by_no_exit setMaintainer_loop_requests)
qed

theorem setMaintainer_continues_after_error_witness:
  "first_put_fails (length ([] :: team list)) = Response 404 (Some ''Not Found'') None
   \<and> \<not> ok 404
   \<and> setMaintainer first_put_fails ''acme'' ''alice'' ([] @ team_a # [team_b]) =
       [Log (SettingMaintainer ''alice'' 2 ''acme''),
        Log (ProcessingTeam ''Team A''), Fetch (PutMembership ''acme'' ''Team A'' ''alice''),
        LogError (TeamApiReturned 404), LogError (ErrorBody ''Not Found''),
        Log (ProcessingTeam ''Team B''), Fetch (PutMembership ''acme'' ''Team B'' ''alice''),
        Log (Success ''alice'' ''maintainer'' ''Team B''),
        Log Done]
   \<and> setMaintainer_graphql first_put_fails ''acme'' ''alice'' ([] @ team_a # [team_b]) =
       [Log (SettingMaintainer ''alice'' 2 ''acme''),
        Log (ProcessingTeam ''team-a''), Fetch (PutMembership ''acme'' ''team-a'' ''alice''),
        LogError (TeamApiReturned 404), LogError (ErrorBody ''Not Found''),
        Log (ProcessingTeam ''team-b''), Fetch (PutMembership ''acme'' ''team-b'' ''alice''),
        Log (Success ''alice'' ''maintainer'' ''team-b''),
        Log Done]"
proof -
  have r: "first_put_fails (length ([] :: team list)) = Response 404 (Some ''Not Found'') None"
    by (simp add: first_put_fails_def)
  have n: "\<not> ok 404" by (simp add: ok_def)
  from setMaintainer_continues_after_error[where put = first_put_fails and ?ts1.0 = "[] :: team list"
      and org = "''acme''" and username = "''alice''" and team = team_a and ?ts2.0 = "[team_b]",
      OF r n] r n
  show ?thesis
    by (simp add: first_put_fails_def ok_def team_a_def team_b_def Let_def)
qed

text \<open>
  C9. When \<^verbatim>\<open>--dry-run\<close> is the first argument, neither script calls \<open>setMaintainer\<close> or
  sends a \<^verbatim>\<open>PUT\<close>: whatever the servers answer, and however long the GraphQL script is left
  to run, the trace holds no event of \<open>setMaintainer\<close>, and every request in it is the
  \<^verbatim>\<open>GET\<close> of the teams or a \<^verbatim>\<open>POST\<close> of a GraphQL query.
\<close>

theorem dry_run_never_sets_maintainer:
  assumes "arg args 0 = Some ''--dry-run''"
  shows "quiet (main args token get put)
       \<and> quiet (main_graphql fuel args token teams_api members_api put)
       \<and> list_all (\<lambda>req. http_method_of req \<noteq> PUT) (requests_of (main args token get put))
       \<and> list_all (\<lambda>req. http_method_of req \<noteq> PUT)
            (requests_of (main_graphql fuel args token teams_api members_api put))"
proof -
  have r: "list_all (\<lambda>req. http_method_of req \<noteq> PUT) (requests_of evs)" if "quiet evs" for evs
    using that by (induction evs rule: requests_of.induct) simp_all
  from main_dry_run_quiet[OF assms] main_graphql_dry_run_quiet[OF assms] r show ?thesis
    by blast
qed

theorem dry_run_never_sets_maintainer_witness:
  "arg [''--dry-run'', ''acme'', ''alice''] 0 = Some ''--dry-run''
   \<and> quiet (main [''--dry-run'', ''acme'', ''alice''] (Some ''token'')
              (Response 200 None (Some [team_a, team_b])) first_put_fails)
   \<and> quiet (main_graphql 2 [''--dry-run'', ''acme'', ''alice''] (Some ''token'')
              one_team_page no_members_page first_put_fails)
   \<and> requests_of (main [''--dry-run'', ''acme'', ''alice''] (Some ''token'')
              (Response 200 None (Some [team_a, team_b])) first_put_fails)
       = [GetTeams ''acme'' ''alice'']
   \<and> requests_of (main_graphql 2 [''--dry-run'', ''acme'', ''alice''] (Some ''token'')
              one_team_page no_members_page first_put_fails)
       = [PostTeamsQuery ''acme'' None]
   \<and> \<not> quiet (main [''acme'', ''alice''] (Some ''token'')
              (Response 200 None (Some [team_a, team_b])) first_put_fails)"
proof -
  have a: "arg [''--dry-run'', ''acme'', ''alice''] 0 = Some ''--dry-run''"
    by (simp add: arg_def)
  from dry_run_never_sets_maintainer[OF a, of "Some ''token''"
      "Response 200 None (Some [team_a, team_b])" first_put_fails 2 one_team_page no_members_page]
  have "quiet (main [''--dry-run'', ''acme'', ''alice''] (Some ''token'')
              (Response 200 None (Some [team_a, team_b])) first_put_fails)"
    and "quiet (main_graphql 2 [''--dry-run'', ''acme'', ''alice''] (Some ''token'')
              one_team_page no_members_page first_put_fails)"
    by simp_all
  moreover have "requests_of (main [''--dry-run'', ''acme'', ''alice''] (Some ''token'')
              (Response 200 None (Some [team_a, team_b])) first_put_fails)
       = [GetTeams ''acme'' ''alice'']"
    by (simp add: main_dry_run_sample)
  moreover have "requests_of (main_graphql 2 [''--dry-run'', ''acme'', ''alice''] (Some ''token'')
              one_team_page no_members_page first_put_fails)
       = [PostTeamsQuery ''acme'' None]"
    by (simp add: main_graphql_dry_run_sample)
  moreover have "\<not> quiet (main [''acme'', ''alice''] (Some ''token'')
              (Response 200 None (Some [team_a, team_b])) first_put_fails)"
    by (simp add: main_sample)
  ultimately show ?thesis using a by simp
qed

end
